theory Spec2Isabelle
  imports Main "HOL-Library.Char_ord"
begin

text \<open>
  An authentication backend on Express and Mongoose: registration, login by password,
  and a password reset by a token sent by mail. The repository holds two versions of
  the User model and two versions of routes/auth.js; both are modelled, the model as a
  parameter of the handlers. A handler is a function from the request fields, the
  environment (clock, random token, salts) and the state (the collection and the mails
  sent) to its outcome (a response, or the exception passed to the error handler) and
  the new state. Requests are served one after the other.
\<close>

section \<open>JavaScript values and strings\<close>

text \<open>
  A request field is any JSON value, or \<open>undefined\<close> when the field is missing.
  Objects and arrays are not inspected by any handler and are one opaque value.
  A \<open>string\<close> is a list of code units; a \<open>char\<close> stands for the code unit with the
  same number (0 to 255), which covers ASCII and Latin-1.
\<close>

datatype jsval = Undefined | Null | Bool bool | Num int | Str string | Obj

text \<open>\<^verbatim>\<open>!v\<close> is the negation of \<open>truthy v\<close>.\<close>

fun truthy :: "jsval \<Rightarrow> bool" where
  "truthy Undefined = False"
| "truthy Null = False"
| "truthy (Bool b) = b"
| "truthy (Num n) = (n \<noteq> 0)"
| "truthy (Str s) = (s \<noteq> [])"
| "truthy Obj = True"

text \<open>\<^verbatim>\<open>typeof v\<close>, and the test \<^verbatim>\<open>typeof v === 'string'\<close>.\<close>

fun typeof :: "jsval \<Rightarrow> string" where
  "typeof Undefined = ''undefined''"
| "typeof Null = ''object''"
| "typeof (Bool b) = ''boolean''"
| "typeof (Num n) = ''number''"
| "typeof (Str s) = ''string''"
| "typeof Obj = ''object''"

fun is_string :: "jsval \<Rightarrow> bool" where
  "is_string (Str s) = True"
| "is_string v = False"

text \<open>The characters of a string value; only read where \<open>is_string\<close> holds.\<close>

fun str_of :: "jsval \<Rightarrow> string" where
  "str_of (Str s) = s"
| "str_of v = []"

text \<open>
  \<^verbatim>\<open>String.prototype.trim\<close> removes white space and line terminators from both ends.
  Below 256 these are the code units 9 to 13, 32 and 160.
\<close>

definition is_ws :: "char \<Rightarrow> bool" where
  "is_ws c = (let n = (of_char c :: nat) in (9 \<le> n \<and> n \<le> 13) \<or> n = 32 \<or> n = 160)"

definition trim :: "string \<Rightarrow> string" where
  "trim s = rev (dropWhile is_ws (rev (dropWhile is_ws s)))"

text \<open>
  \<^verbatim>\<open>String.prototype.toLowerCase\<close>: below 256 the code units with a lower-case
  partner are A to Z and 192 to 222 without 215, each 32 below its partner.
\<close>

definition lower_char :: "char \<Rightarrow> char" where
  "lower_char c =
     (let n = (of_char c :: nat)
      in if (65 \<le> n \<and> n \<le> 90) \<or> (192 \<le> n \<and> n \<le> 222 \<and> n \<noteq> 215)
         then char_of (n + 32) else c)"

definition toLowerCase :: "string \<Rightarrow> string" where
  "toLowerCase s = map lower_char s"

text \<open>The four regular expressions of the password check, as \<^verbatim>\<open>re.test(s)\<close>.\<close>

definition in_AZ :: "char \<Rightarrow> bool" where
  "in_AZ c = (let n = (of_char c :: nat) in 65 \<le> n \<and> n \<le> 90)"

definition in_az :: "char \<Rightarrow> bool" where
  "in_az c = (let n = (of_char c :: nat) in 97 \<le> n \<and> n \<le> 122)"

definition in_09 :: "char \<Rightarrow> bool" where
  "in_09 c = (let n = (of_char c :: nat) in 48 \<le> n \<and> n \<le> 57)"

definition test_upper :: "string \<Rightarrow> bool" where
  "test_upper s = list_ex in_AZ s"

definition test_lower :: "string \<Rightarrow> bool" where
  "test_lower s = list_ex in_az s"

definition test_digit :: "string \<Rightarrow> bool" where
  "test_digit s = list_ex in_09 s"

definition test_special :: "string \<Rightarrow> bool" where
  "test_special s = list_ex (\<lambda>c. \<not> (in_AZ c \<or> in_az c \<or> in_09 c)) s"

section \<open>Errors and responses\<close>

text \<open>
  An exception carries the three properties the error handlers read: \<open>code\<close>
  (a number, or absent), \<open>statusCode\<close> or \<open>status\<close>, and \<open>message\<close>.
\<close>

record js_error =
  err_code :: "int option"
  err_statusCode :: "nat option"
  err_status :: "nat option"
  err_message :: string

definition plain_error :: "string \<Rightarrow> js_error" where
  "plain_error m = \<lparr>err_code = None, err_statusCode = None, err_status = None, err_message = m\<rparr>"

text \<open>The body \<^verbatim>\<open>{success, message, user: {id, email}}\<close> with its HTTP status.\<close>

record response =
  status :: nat
  success :: bool
  message :: string
  user :: "(nat \<times> string) option"

definition reply :: "nat \<Rightarrow> bool \<Rightarrow> string \<Rightarrow> response" where
  "reply st ok m = \<lparr>status = st, success = ok, message = m, user = None\<rparr>"

text \<open>\<^verbatim>\<open>x || 500\<close> on an optional status: absent and 0 are falsy.\<close>

definition or_500 :: "nat option \<Rightarrow> nat" where
  "or_500 x = (case x of None \<Rightarrow> 500 | Some n \<Rightarrow> if n = 0 then 500 else n)"

definition or_internal :: "string \<Rightarrow> string" where
  "or_internal m = (if m = [] then ''Internal Server Error'' else m)"

text \<open>middleware/errorHandler.js\<close>

definition errorHandler :: "js_error \<Rightarrow> response" where
  "errorHandler err =
     (if err_code err = Some 11000 then reply 400 False ''Email already exists''
      else reply (or_500 (err_statusCode err)) False (or_internal (err_message err)))"

text \<open>The global error handler registered in the server file.\<close>

definition global_error_handler :: "js_error \<Rightarrow> response" where
  "global_error_handler err =
     (if err_code err = Some 11000 then reply 400 False ''Email already exists''
      else reply (or_500 (err_status err)) False (or_internal (err_message err)))"

section \<open>Password hashing\<close>

text \<open>
  bcrypt is a library outside the repository. It is modelled as an ideal salted hash:
  the digest of a value under a cost and a salt is the term \<open>Bcrypt cost salt value\<close>,
  so digests of different values differ, and a digest is 60 characters long. The value
  of a password field is literal text or such a digest; hashing a digest again nests
  the term. The limit of bcrypt to the first 72 bytes of its input is not modelled.
\<close>

datatype pwtext = Plain string | Bcrypt nat nat pwtext

fun pw_length :: "pwtext \<Rightarrow> nat" where
  "pw_length (Plain s) = length s"
| "pw_length (Bcrypt r s x) = 60"

definition bcrypt_hash :: "pwtext \<Rightarrow> nat \<times> nat \<Rightarrow> pwtext" where
  "bcrypt_hash s salt = Bcrypt (fst salt) (snd salt) s"

text \<open>
  \<^verbatim>\<open>bcrypt.compare(s, hash)\<close> rejects with "Illegal arguments: ..." unless \<open>s\<close> is a string,
  answers false for a stored value that is no digest, and otherwise hashes \<open>s\<close> with
  the cost and salt of the digest and compares.
\<close>

fun bcrypt_compare :: "jsval \<Rightarrow> pwtext \<Rightarrow> js_error + bool" where
  "bcrypt_compare (Str s) (Bcrypt r salt x) = Inr (bcrypt_hash (Plain s) (r, salt) = Bcrypt r salt x)"
| "bcrypt_compare (Str s) (Plain h) = Inr False"
| "bcrypt_compare v h = Inl (plain_error (''Illegal arguments: '' @ typeof v @ '', string''))"

section \<open>The User model\<close>

record user_doc =
  uid :: nat
  fullName :: "string option"
  email :: string
  password :: pwtext
  resetPasswordToken :: "string option"
  resetPasswordExpire :: "int option"

text \<open>
  The repository holds two versions of the User schema. They differ in the options
  below: whether \<open>fullName\<close> is a (required, trimmed) path, whether \<open>email\<close> has the
  \<open>trim\<close> setter, the validator of \<open>email\<close> (the library function
  \<^verbatim>\<open>validator.isEmail\<close>, a parameter here), and the cost given to \<^verbatim>\<open>genSalt\<close>.
  The \<open>timestamps\<close> paths are left out: no handler reads them.
\<close>

record schema =
  has_fullName :: bool
  trim_email :: bool
  email_validator :: "string \<Rightarrow> bool"
  salt_rounds :: nat

text \<open>models/User.js\<close>

definition User_js :: schema where
  "User_js = \<lparr>has_fullName = True, trim_email = False, email_validator = (\<lambda>e. True), salt_rounds = 10\<rparr>"

text \<open>The unnamed second version of the model; \<open>isEmail\<close> is \<^verbatim>\<open>validator.isEmail\<close>.\<close>

definition User_v2 :: "(string \<Rightarrow> bool) \<Rightarrow> schema" where
  "User_v2 isEmail = \<lparr>has_fullName = False, trim_email = True, email_validator = isEmail, salt_rounds = 12\<rparr>"

text \<open>
  The setters of the \<open>email\<close> path (\<open>lowercase\<close>, and \<open>trim\<close> where declared). Mongoose
  runs them when a document is built and when a query filter is cast.
\<close>

definition cast_email :: "schema \<Rightarrow> string \<Rightarrow> string" where
  "cast_email sc e = toLowerCase (if trim_email sc then trim e else e)"

text \<open>
  Validation, run by \<^verbatim>\<open>save()\<close> before the pre-save hook on every path of the
  document: \<open>required\<close> rejects a missing or empty string, \<open>minlength\<close> a password
  shorter than 8. The message of the library's ValidationError is not reproduced.
\<close>

definition validation_error :: js_error where
  "validation_error = plain_error ''User validation failed''"

definition valid_doc :: "schema \<Rightarrow> user_doc \<Rightarrow> bool" where
  "valid_doc sc d =
     ((has_fullName sc \<longrightarrow> (case fullName d of None \<Rightarrow> False | Some n \<Rightarrow> n \<noteq> []))
      \<and> email d \<noteq> [] \<and> email_validator sc (email d)
      \<and> pw_length (password d) \<noteq> 0 \<and> 8 \<le> pw_length (password d))"

text \<open>
  \<^verbatim>\<open>this.isModified('password')\<close>: true on a new document, and on a loaded one when the
  assigned value differs from the loaded one. \<open>orig\<close> is the document as loaded, or
  \<open>None\<close> for a new one.
\<close>

definition isModified_password :: "user_doc option \<Rightarrow> user_doc \<Rightarrow> bool" where
  "isModified_password orig d = (case orig of None \<Rightarrow> True | Some d0 \<Rightarrow> password d0 \<noteq> password d)"

text \<open>The pre-save hook; \<open>salt\<close> is the result of \<^verbatim>\<open>bcrypt.genSalt\<close>.\<close>

definition pre_save :: "schema \<Rightarrow> nat \<Rightarrow> user_doc option \<Rightarrow> user_doc \<Rightarrow> user_doc" where
  "pre_save sc salt orig d =
     (if \<not> isModified_password orig d then d
      else d\<lparr>password := bcrypt_hash (password d) (salt_rounds sc, salt)\<rparr>)"

text \<open>\<^verbatim>\<open>userSchema.methods.comparePassword\<close>\<close>

definition comparePassword :: "user_doc \<Rightarrow> jsval \<Rightarrow> js_error + bool" where
  "comparePassword d candidatePassword = bcrypt_compare candidatePassword (password d)"

section \<open>The document store\<close>

text \<open>
  The collection is the list of its documents in insertion order; \<^verbatim>\<open>findOne\<close> gives
  the first match. The unique indexes on \<open>_id\<close> and \<open>email\<close> reject an insert with
  error code 11000.
\<close>

definition duplicate_key_error :: js_error where
  "duplicate_key_error =
     \<lparr>err_code = Some 11000, err_statusCode = None, err_status = None,
      err_message = ''E11000 duplicate key error''\<rparr>"

text \<open>\<^verbatim>\<open>User.findOne({ email: e })\<close>\<close>

definition findOne_email :: "schema \<Rightarrow> string \<Rightarrow> user_doc list \<Rightarrow> user_doc option" where
  "findOne_email sc e db = find (\<lambda>u. email u = cast_email sc e) db"

text \<open>\<^verbatim>\<open>User.findOne({ resetPasswordToken: token, resetPasswordExpire: { $gt: now } })\<close>\<close>

definition findOne_token :: "string \<Rightarrow> int \<Rightarrow> user_doc list \<Rightarrow> user_doc option" where
  "findOne_token token now db =
     find (\<lambda>u. resetPasswordToken u = Some token
               \<and> (case resetPasswordExpire u of None \<Rightarrow> False | Some e \<Rightarrow> now < e)) db"

text \<open>
  \<^verbatim>\<open>doc.save()\<close>: validation, the pre-save hook, then the write: an insert for a new
  document, an update of the document with the same \<open>_id\<close> for a loaded one.
\<close>

definition save :: "schema \<Rightarrow> nat \<Rightarrow> user_doc option \<Rightarrow> user_doc \<Rightarrow> user_doc list
                    \<Rightarrow> js_error + user_doc list" where
  "save sc salt orig d db =
     (if \<not> valid_doc sc d then Inl validation_error
      else let d' = pre_save sc salt orig d
           in (case orig of
                 None \<Rightarrow>
                   if uid d' \<in> set (map uid db) \<or> email d' \<in> set (map email db)
                   then Inl duplicate_key_error
                   else Inr (db @ [d'])
               | Some d0 \<Rightarrow> Inr (map (\<lambda>u. if uid u = uid d0 then d' else u) db)))"

text \<open>\<^verbatim>\<open>new User({ fullName, email, password })\<close>: the setters run, a path outside the schema is dropped.\<close>

definition new_User :: "schema \<Rightarrow> nat \<Rightarrow> string \<Rightarrow> string \<Rightarrow> string \<Rightarrow> user_doc" where
  "new_User sc oid name e pw =
     \<lparr>uid = oid,
      fullName = (if has_fullName sc then Some (trim name) else None),
      email = cast_email sc e,
      password = Plain pw,
      resetPasswordToken = None,
      resetPasswordExpire = None\<rparr>"

section \<open>The environment of a request\<close>

text \<open>
  What a handler reads from outside: the clock (\<^verbatim>\<open>Date.now()\<close>, in milliseconds), the
  hex string of \<^verbatim>\<open>crypto.randomBytes(20)\<close>, the salts of \<^verbatim>\<open>bcrypt.genSalt\<close> (one for
  the pre-save hook, one for a call in a route), the \<open>_id\<close> of a new document, and whether
  the mail configuration is present and the transport delivers.
\<close>

record env =
  now :: int
  random_token :: string
  hook_salt :: nat
  route_salt :: nat
  object_id :: nat
  smtp_configured :: bool
  transport_ok :: bool

text \<open>The state: the collection, and the reset mails handed to the transport.\<close>

record state =
  users :: "user_doc list"
  outbox :: "(string \<times> string) list"

text \<open>utils/email.js\<close>

definition sendResetEmail :: "env \<Rightarrow> string \<Rightarrow> string \<Rightarrow> state \<Rightarrow> js_error + state" where
  "sendResetEmail ev e token st =
     (if \<not> smtp_configured ev
      then Inl (plain_error ''SMTP configuration and FRONTEND_URL must be set in environment variables'')
      else if \<not> transport_ok ev
      then Inl (plain_error ''Failed to send password reset email'')
      else Inr (st\<lparr>outbox := outbox st @ [(e, token)]\<rparr>))"

section \<open>The routes with register and login\<close>

text \<open>
  The names of these handlers start with \<open>r2\<close>, those of the other version of
  routes/auth.js with \<open>r1\<close>. An exception is the left summand of the outcome. Calling
  \<^verbatim>\<open>trim\<close> on a value that is no string raises a TypeError; its message depends on
  the value and is not reproduced.
\<close>

type_synonym outcome = "(js_error + response) \<times> state"

text \<open>POST /register\<close>

definition r2_post_register :: "schema \<Rightarrow> env \<Rightarrow> jsval \<Rightarrow> jsval \<Rightarrow> jsval \<Rightarrow> state \<Rightarrow> outcome" where
  "r2_post_register sc ev fullName_v email_v password_v st =
     (if \<not> truthy fullName_v then (Inr (reply 400 False ''Name is required''), st)
      else if \<not> is_string fullName_v
      then (Inl (plain_error ''fullName.trim is not a function''), st)
      else if length (trim (str_of fullName_v)) < 2
      then (Inr (reply 400 False ''Name is required''), st)
      else if \<not> truthy password_v \<or> \<not> is_string password_v
              \<or> length (str_of password_v) < 8
              \<or> \<not> test_upper (str_of password_v)
              \<or> \<not> test_lower (str_of password_v)
              \<or> \<not> test_digit (str_of password_v)
              \<or> \<not> test_special (str_of password_v)
      then (Inr (reply 400 False
        ''Password must be at least 8 characters long, include uppercase, lowercase, number, and special character''), st)
      else if \<not> is_string email_v
      then (Inl (plain_error ''email.trim is not a function''), st)
      else let emailLower = toLowerCase (trim (str_of email_v))
           in (case findOne_email sc emailLower (users st) of
                Some existingUser \<Rightarrow>
                  (Inr (reply 400 False ''User with this email already exists''), st)
              | None \<Rightarrow>
                  (let newUser = new_User sc (object_id ev) (trim (str_of fullName_v)) emailLower
                                   (str_of password_v)
                   in (case save sc (hook_salt ev) None newUser (users st) of
                         Inl e \<Rightarrow> (Inl e, st)
                       | Inr db \<Rightarrow>
                           (Inr \<lparr>status = 201, success = True,
                                 message = ''User registered successfully'',
                                 user = Some (uid newUser, email newUser)\<rparr>,
                            st\<lparr>users := db\<rparr>)))))"

text \<open>POST /login\<close>

definition r2_post_login :: "schema \<Rightarrow> jsval \<Rightarrow> jsval \<Rightarrow> state \<Rightarrow> outcome" where
  "r2_post_login sc email_v password_v st =
     (if \<not> truthy email_v \<or> \<not> truthy password_v
      then (Inr (reply 400 False ''Email and password are required''), st)
      else if \<not> is_string email_v
      then (Inl (plain_error ''email.trim is not a function''), st)
      else let emailTrimmed = toLowerCase (trim (str_of email_v))
           in (case findOne_email sc emailTrimmed (users st) of
                None \<Rightarrow> (Inr (reply 400 False ''Invalid email or password''), st)
              | Some u \<Rightarrow>
                  (case comparePassword u password_v of
                     Inl e \<Rightarrow> (Inl e, st)
                   | Inr isMatch \<Rightarrow>
                       if \<not> isMatch
                       then (Inr (reply 400 False ''Invalid email or password''), st)
                       else (Inr \<lparr>status = 200, success = True, message = ''Login successful'',
                                  user = Some (uid u, email u)\<rparr>, st))))"

text \<open>POST /forgot-password\<close>

definition r2_post_forgot_password :: "schema \<Rightarrow> env \<Rightarrow> jsval \<Rightarrow> state \<Rightarrow> outcome" where
  "r2_post_forgot_password sc ev email_v st =
     (if \<not> truthy email_v \<or> \<not> is_string email_v
      then (Inr (reply 400 False ''Valid email is required''), st)
      else case findOne_email sc (toLowerCase (str_of email_v)) (users st) of
             None \<Rightarrow>
               (Inr (reply 200 True
                  ''If an account with that email exists, a reset link will be sent''), st)
           | Some u \<Rightarrow>
               (let resetToken = random_token ev;
                    resetExpire = now ev + 3600000;
                    u' = u\<lparr>resetPasswordToken := Some resetToken,
                           resetPasswordExpire := Some resetExpire\<rparr>
                in (case save sc (hook_salt ev) (Some u) u' (users st) of
                      Inl e \<Rightarrow> (Inl e, st)
                    | Inr db \<Rightarrow>
                        (case sendResetEmail ev (email u') resetToken (st\<lparr>users := db\<rparr>) of
                           Inl e \<Rightarrow> (Inl e, st\<lparr>users := db\<rparr>)
                         | Inr st' \<Rightarrow>
                             (Inr (reply 200 True ''Password reset email sent if account exists''),
                              st')))))"

text \<open>GET /reset-password/:token\<close>

definition r2_get_reset_password :: "env \<Rightarrow> string \<Rightarrow> state \<Rightarrow> outcome" where
  "r2_get_reset_password ev token st =
     (case findOne_token token (now ev) (users st) of
        None \<Rightarrow> (Inr (reply 400 False ''Invalid or expired token''), st)
      | Some u \<Rightarrow> (Inr (reply 200 True ''Token is valid''), st))"

text \<open>POST /reset-password/:token; the plain password is hashed by the pre-save hook.\<close>

definition r2_post_reset_password :: "schema \<Rightarrow> env \<Rightarrow> string \<Rightarrow> jsval \<Rightarrow> state \<Rightarrow> outcome" where
  "r2_post_reset_password sc ev token password_v st =
     (if \<not> truthy password_v \<or> \<not> is_string password_v
         \<or> length (str_of password_v) < 8
         \<or> \<not> test_upper (str_of password_v)
         \<or> \<not> test_lower (str_of password_v)
         \<or> \<not> test_digit (str_of password_v)
         \<or> \<not> test_special (str_of password_v)
      then (Inr (reply 400 False
        ''Password must be at least 8 characters long, include uppercase, lowercase, number, and special character''), st)
      else case findOne_token token (now ev) (users st) of
             None \<Rightarrow> (Inr (reply 400 False ''Invalid or expired token''), st)
           | Some u \<Rightarrow>
               (let u' = u\<lparr>password := Plain (str_of password_v),
                           resetPasswordToken := None,
                           resetPasswordExpire := None\<rparr>
                in (case save sc (hook_salt ev) (Some u) u' (users st) of
                      Inl e \<Rightarrow> (Inl e, st)
                    | Inr db \<Rightarrow>
                        (Inr (reply 200 True ''Password has been reset successfully''),
                         st\<lparr>users := db\<rparr>))))"

section \<open>The routes of the reset flow alone\<close>

text \<open>
  The other version of routes/auth.js has the three reset routes only. Its
  forgot-password answers 404 for an unknown address, its token routes check the
  parameter first, and its reset hashes the password in the route before \<^verbatim>\<open>save()\<close>.
\<close>

definition r1_post_forgot_password :: "schema \<Rightarrow> env \<Rightarrow> jsval \<Rightarrow> state \<Rightarrow> outcome" where
  "r1_post_forgot_password sc ev email_v st =
     (if \<not> truthy email_v \<or> \<not> is_string email_v
      then (Inr (reply 400 False ''Valid email is required''), st)
      else case findOne_email sc (toLowerCase (str_of email_v)) (users st) of
             None \<Rightarrow> (Inr (reply 404 False ''No account found with that email''), st)
           | Some u \<Rightarrow>
               (let resetToken = random_token ev;
                    resetExpire = now ev + 3600000;
                    u' = u\<lparr>resetPasswordToken := Some resetToken,
                           resetPasswordExpire := Some resetExpire\<rparr>
                in (case save sc (hook_salt ev) (Some u) u' (users st) of
                      Inl e \<Rightarrow> (Inl e, st)
                    | Inr db \<Rightarrow>
                        (case sendResetEmail ev (email u') resetToken (st\<lparr>users := db\<rparr>) of
                           Inl e \<Rightarrow> (Inl e, st\<lparr>users := db\<rparr>)
                         | Inr st' \<Rightarrow>
                             (Inr (reply 200 True ''Password reset email sent if account exists''),
                              st')))))"

definition r1_get_reset_password :: "env \<Rightarrow> string \<Rightarrow> state \<Rightarrow> outcome" where
  "r1_get_reset_password ev token st =
     (if token = [] then (Inr (reply 400 False ''Invalid token''), st)
      else case findOne_token token (now ev) (users st) of
             None \<Rightarrow> (Inr (reply 400 False ''Invalid or expired token''), st)
           | Some u \<Rightarrow> (Inr (reply 200 True ''Token is valid''), st))"

definition r1_post_reset_password :: "schema \<Rightarrow> env \<Rightarrow> string \<Rightarrow> jsval \<Rightarrow> state \<Rightarrow> outcome" where
  "r1_post_reset_password sc ev token password_v st =
     (if token = [] then (Inr (reply 400 False ''Invalid token''), st)
      else if \<not> truthy password_v \<or> \<not> is_string password_v
         \<or> length (str_of password_v) < 8
         \<or> \<not> test_upper (str_of password_v)
         \<or> \<not> test_lower (str_of password_v)
         \<or> \<not> test_digit (str_of password_v)
         \<or> \<not> test_special (str_of password_v)
      then (Inr (reply 400 False
        ''Password must be at least 8 characters long, include uppercase, lowercase, number, and special character''), st)
      else case findOne_token token (now ev) (users st) of
             None \<Rightarrow> (Inr (reply 400 False ''Invalid or expired token''), st)
           | Some u \<Rightarrow>
               (let hashedPassword = bcrypt_hash (Plain (str_of password_v)) (12, route_salt ev);
                    u' = u\<lparr>password := hashedPassword,
                           resetPasswordToken := None,
                           resetPasswordExpire := None\<rparr>
                in (case save sc (hook_salt ev) (Some u) u' (users st) of
                      Inl e \<Rightarrow> (Inl e, st)
                    | Inr db \<Rightarrow>
                        (Inr (reply 200 True ''Password has been reset successfully''),
                         st\<lparr>users := db\<rparr>))))"

section \<open>Requests and the application\<close>

datatype request =
    PostRegister jsval jsval jsval
  | PostLogin jsval jsval
  | PostForgotPassword jsval
  | GetResetPassword string
  | PostResetPassword string jsval

fun r2_route :: "schema \<Rightarrow> env \<Rightarrow> request \<Rightarrow> state \<Rightarrow> outcome" where
  "r2_route sc ev (PostRegister n e p) st = r2_post_register sc ev n e p st"
| "r2_route sc ev (PostLogin e p) st = r2_post_login sc e p st"
| "r2_route sc ev (PostForgotPassword e) st = r2_post_forgot_password sc ev e st"
| "r2_route sc ev (GetResetPassword t) st = r2_get_reset_password ev t st"
| "r2_route sc ev (PostResetPassword t p) st = r2_post_reset_password sc ev t p st"

datatype reset_request =
    ForgotPassword jsval
  | ValidateToken string
  | ResetPassword string jsval

fun r1_route :: "schema \<Rightarrow> env \<Rightarrow> reset_request \<Rightarrow> state \<Rightarrow> outcome" where
  "r1_route sc ev (ForgotPassword e) st = r1_post_forgot_password sc ev e st"
| "r1_route sc ev (ValidateToken t) st = r1_get_reset_password ev t st"
| "r1_route sc ev (ResetPassword t p) st = r1_post_reset_password sc ev t p st"

text \<open>
  A handler passes what it catches to \<^verbatim>\<open>next(error)\<close>, and the error handler writes
  the response.
\<close>

definition respond :: "(js_error \<Rightarrow> response) \<Rightarrow> outcome \<Rightarrow> response \<times> state" where
  "respond handler out = (case fst out of Inl e \<Rightarrow> handler e | Inr r \<Rightarrow> r, snd out)"

section \<open>The specification's notions\<close>

text \<open>
  These definitions follow the words of the specification, not the code; the theorems
  below compare the code with them.
\<close>

text \<open>Normalized email: trimmed of white space and lower-cased.\<close>

definition normalized :: "string \<Rightarrow> string" where
  "normalized e = toLowerCase (trim e)"

text \<open>
  Password Policy: length at least 8, at least one upper-case letter, one lower-case
  letter, one digit, and one character outside A-Z, a-z, 0-9.
\<close>

definition policy_spec :: "string \<Rightarrow> bool" where
  "policy_spec pw =
     (8 \<le> length pw
      \<and> (\<exists>c \<in> set pw. CHR ''A'' \<le> c \<and> c \<le> CHR ''Z'')
      \<and> (\<exists>c \<in> set pw. CHR ''a'' \<le> c \<and> c \<le> CHR ''z'')
      \<and> (\<exists>c \<in> set pw. CHR ''0'' \<le> c \<and> c \<le> CHR ''9'')
      \<and> (\<exists>c \<in> set pw. \<not> (CHR ''A'' \<le> c \<and> c \<le> CHR ''Z'')
                          \<and> \<not> (CHR ''a'' \<le> c \<and> c \<le> CHR ''z'')
                          \<and> \<not> (CHR ''0'' \<le> c \<and> c \<le> CHR ''9'')))"

text \<open>The single error of a violated policy.\<close>

definition policy_error :: response where
  "policy_error = reply 400 False
     ''Password must be at least 8 characters long, include uppercase, lowercase, number, and special character''"

text \<open>
  A token is live at a time when some stored user holds exactly this token and an
  expiry strictly after that time.
\<close>

definition holds_token :: "string \<Rightarrow> int \<Rightarrow> user_doc \<Rightarrow> bool" where
  "holds_token token t u =
     (resetPasswordToken u = Some token
      \<and> resetPasswordExpire u \<noteq> None \<and> t < the (resetPasswordExpire u))"

definition token_live :: "string \<Rightarrow> int \<Rightarrow> user_doc list \<Rightarrow> bool" where
  "token_live token t db = list_ex (holds_token token t) db"

text \<open>The one outcome of a rejected token.\<close>

definition invalid_or_expired :: response where
  "invalid_or_expired = reply 400 False ''Invalid or expired token''"

text \<open>The token and its expiry are both present or both absent.\<close>

definition paired :: "user_doc \<Rightarrow> bool" where
  "paired u = ((resetPasswordToken u = None) = (resetPasswordExpire u = None))"

text \<open>At most one user (one \<open>_id\<close>) holds a given token: tokens are 20 random bytes.\<close>

definition token_unique :: "string \<Rightarrow> user_doc list \<Rightarrow> bool" where
  "token_unique token db =
     list_all (\<lambda>u. list_all (\<lambda>v. resetPasswordToken u = Some token
                                  \<and> resetPasswordToken v = Some token \<longrightarrow> uid u = uid v) db) db"

text \<open>
  The condition under which the three handlers refuse a password, as each of them
  writes it out; the lemmas \<open>*_unfold\<close> below show that it is the one they use.
\<close>

definition password_refused :: "jsval \<Rightarrow> bool" where
  "password_refused v =
     (\<not> truthy v \<or> \<not> is_string v \<or> length (str_of v) < 8
      \<or> \<not> test_upper (str_of v) \<or> \<not> test_lower (str_of v)
      \<or> \<not> test_digit (str_of v) \<or> \<not> test_special (str_of v))"

text \<open>The generic failure of a login.\<close>

definition invalid_credentials :: response where
  "invalid_credentials = reply 400 False ''Invalid email or password''"

section \<open>Reachable states\<close>

text \<open>
  The states the application can be in: it starts with an empty collection and serves
  requests of either version of the routes, one after the other. The random token of
  a request is one that no stored user holds.
\<close>

definition fresh_token :: "env \<Rightarrow> state \<Rightarrow> bool" where
  "fresh_token ev st = (\<not> list_ex (\<lambda>u. resetPasswordToken u = Some (random_token ev)) (users st))"

inductive reachable :: "schema \<Rightarrow> state \<Rightarrow> bool" for sc :: schema where
  start: "reachable sc \<lparr>users = [], outbox = []\<rparr>"
| serve_r2: "reachable sc st \<Longrightarrow> fresh_token ev st \<Longrightarrow> reachable sc (snd (r2_route sc ev req st))"
| serve_r1: "reachable sc st \<Longrightarrow> fresh_token ev st \<Longrightarrow> reachable sc (snd (r1_route sc ev rq st))"

text \<open>What a request can do to the collection.\<close>

definition appended :: "schema \<Rightarrow> user_doc list \<Rightarrow> user_doc list \<Rightarrow> bool" where
  "appended sc db db' =
     (\<exists>d. db' = db @ [d] \<and> valid_doc sc d \<and> email d = trim (email d)
          \<and> resetPasswordToken d = None \<and> resetPasswordExpire d = None)"

definition replaced :: "schema \<Rightarrow> env \<Rightarrow> user_doc list \<Rightarrow> user_doc list \<Rightarrow> bool" where
  "replaced sc ev db db' =
     (\<exists>u d. u \<in> set db \<and> db' = map (\<lambda>x. if uid x = uid u then d else x) db
          \<and> valid_doc sc d \<and> email d = email u \<and> uid d = uid u
          \<and> (resetPasswordToken d = None \<and> resetPasswordExpire d = None
              \<or> resetPasswordToken d = Some (random_token ev)
                \<and> resetPasswordExpire d = Some (now ev + 3600000)))"

text \<open>A request leaves the collection as it is, appends one document or replaces one.\<close>

definition effect :: "schema \<Rightarrow> env \<Rightarrow> user_doc list \<Rightarrow> user_doc list \<Rightarrow> bool" where
  "effect sc ev db db' = (db' = db \<or> appended sc db db' \<or> replaced sc ev db db')"

section \<open>A concrete run\<close>

text \<open>
  The end-to-end example of the specification: Jane Doe registers as Jane@Test.com,
  asks for a reset and sets a new password. The environment fixes the clock, the
  token and the salts.
\<close>

definition jane_env :: env where
  "jane_env =
     \<lparr>now = 1700000000000,
      random_token = ''0123456789abcdef0123456789abcdef01234567'',
      hook_salt = 1, route_salt = 2, object_id = 1,
      smtp_configured = True, transport_ok = True\<rparr>"

definition later_env :: env where
  "later_env = jane_env\<lparr>now := 1700000060000, hook_salt := 3, route_salt := 4, object_id := 2\<rparr>"

definition no_users :: state where
  "no_users = \<lparr>users = [], outbox = []\<rparr>"

definition jane :: user_doc where
  "jane =
     \<lparr>uid = 1, fullName = Some ''Jane Doe'', email = ''jane@test.com'',
      password = Bcrypt 10 1 (Plain ''Str0ng!Pass''),
      resetPasswordToken = None, resetPasswordExpire = None\<rparr>"

definition jane_registered :: state where
  "jane_registered = \<lparr>users = [jane], outbox = []\<rparr>"

definition jane_asked :: state where
  "jane_asked =
     \<lparr>users = [jane\<lparr>resetPasswordToken := Some ''0123456789abcdef0123456789abcdef01234567'',
                       resetPasswordExpire := Some 1700003600000\<rparr>],
      outbox = [(''jane@test.com'', ''0123456789abcdef0123456789abcdef01234567'')]\<rparr>"

definition jane_reset :: state where
  "jane_reset =
     \<lparr>users = [jane\<lparr>password := Bcrypt 10 3 (Plain ''NewStr0ng!1'')\<rparr>],
      outbox = [(''jane@test.com'', ''0123456789abcdef0123456789abcdef01234567'')]\<rparr>"

definition jane_hashed_twice :: state where
  "jane_hashed_twice =
     \<lparr>users = [jane\<lparr>password := Bcrypt 10 3 (Bcrypt 12 4 (Plain ''NewStr0ng!1''))\<rparr>],
      outbox = [(''jane@test.com'', ''0123456789abcdef0123456789abcdef01234567'')]\<rparr>"

section \<open>Strings: trimming and lower-casing\<close>

lemma is_ws_lower_char: "is_ws (lower_char c) = is_ws c"
  by (auto simp: is_ws_def lower_char_def Let_def)

lemma lower_char_idem: "lower_char (lower_char c) = lower_char c"
  by (auto simp: lower_char_def Let_def)

lemma toLowerCase_idem: "toLowerCase (toLowerCase s) = toLowerCase s"
  by (simp add: toLowerCase_def lower_char_idem)

lemma dropWhile_ws_lower:
  "dropWhile is_ws (map lower_char s) = map lower_char (dropWhile is_ws s)"
  by (induction s) (simp_all add: is_ws_lower_char)

lemma trim_toLowerCase: "trim (toLowerCase s) = toLowerCase (trim s)"
  by (simp add: trim_def toLowerCase_def dropWhile_ws_lower rev_map)

lemma dropWhile_rev_dropWhile:
  assumes "t = [] \<or> \<not> P (hd t)"
  shows "dropWhile P (rev (dropWhile P (rev t))) = rev (dropWhile P (rev t))"
proof (cases "dropWhile P (rev t) = []")
  case True
  then show ?thesis by (metis dropWhile.simps(1) rev.simps(1))
next
  case False
  let ?w = "dropWhile P (rev t)"
  have "rev t = takeWhile P (rev t) @ ?w" by simp
  then have "t = rev ?w @ rev (takeWhile P (rev t))"
    by (metis rev_append rev_rev_ident)
  with False have "hd (rev ?w) = hd t" and "t \<noteq> []"
    by (metis hd_append2 rev_is_Nil_conv, metis Nil_is_append_conv rev_is_Nil_conv)
  with assms have "\<not> P (hd (rev ?w))" by simp
  then show ?thesis by (simp add: dropWhile_eq_self_iff)
qed

lemma trim_idem: "trim (trim s) = trim s"
proof -
  have "dropWhile is_ws s = [] \<or> \<not> is_ws (hd (dropWhile is_ws s))"
    by (metis hd_dropWhile)
  then show ?thesis
    unfolding trim_def by (simp add: dropWhile_rev_dropWhile)
qed

lemma cast_email_normalized: "cast_email sc (toLowerCase (trim e)) = toLowerCase (trim e)"
  by (simp add: cast_email_def trim_toLowerCase trim_idem toLowerCase_idem)

section \<open>The password policy\<close>

text \<open>The condition written in each of the three handlers is the negated policy.\<close>

lemma weak_iff_policy:
  "(\<not> truthy (Str pw) \<or> \<not> is_string (Str pw) \<or> length (str_of (Str pw)) < 8
     \<or> \<not> test_upper (str_of (Str pw)) \<or> \<not> test_lower (str_of (Str pw))
     \<or> \<not> test_digit (str_of (Str pw)) \<or> \<not> test_special (str_of (Str pw)))
   = (\<not> policy_spec pw)"
  by (auto simp: policy_spec_def test_upper_def test_lower_def test_digit_def test_special_def
      in_AZ_def in_az_def in_09_def list_ex_iff less_eq_char_def Let_def)

lemma r2_reset_policy:
  "(fst (r2_post_reset_password sc ev t (Str pw) st) = Inr policy_error) = (\<not> policy_spec pw)"
  unfolding r2_post_reset_password_def weak_iff_policy
  by (simp add: policy_error_def reply_def Let_def split: option.splits sum.splits)

lemma r1_reset_policy:
  "t \<noteq> [] \<Longrightarrow>
   (fst (r1_post_reset_password sc ev t (Str pw) st) = Inr policy_error) = (\<not> policy_spec pw)"
  unfolding r1_post_reset_password_def weak_iff_policy
  by (simp add: policy_error_def reply_def Let_def split: option.splits sum.splits)

lemma register_policy:
  "2 \<le> length (trim n) \<Longrightarrow>
   (fst (r2_post_register sc ev (Str n) e (Str pw) st) = Inr policy_error) = (\<not> policy_spec pw)"
  unfolding r2_post_register_def weak_iff_policy
  by (cases "n = []")
    (simp_all add: policy_error_def reply_def Let_def trim_def split: option.splits sum.splits)

section \<open>Login\<close>

lemma login_unknown_email:
  assumes "e \<noteq> []" and "truthy p"
    and "findOne_email sc (normalized e) (users st) = None"
  shows "r2_post_login sc (Str e) p st = (Inr invalid_credentials, st)"
  using assms by (simp add: r2_post_login_def normalized_def invalid_credentials_def Let_def)

lemma login_wrong_password:
  assumes "e \<noteq> []" and "truthy p"
    and "findOne_email sc (normalized e) (users st) = Some u"
    and "comparePassword u p = Inr False"
  shows "r2_post_login sc (Str e) p st = (Inr invalid_credentials, st)"
  using assms by (simp add: r2_post_login_def normalized_def invalid_credentials_def Let_def)

section \<open>Duplicate emails\<close>

lemma error_handlers_11000:
  "err_code err = Some 11000 \<Longrightarrow>
     errorHandler err = reply 400 False ''Email already exists''
     \<and> global_error_handler err = reply 400 False ''Email already exists''"
  by (simp add: errorHandler_def global_error_handler_def)

lemma error_handlers_fail:
  "success (errorHandler err) = False" "success (global_error_handler err) = False"
  by (simp_all add: errorHandler_def global_error_handler_def reply_def)

lemma pre_save_email: "email (pre_save sc salt orig d) = email d"
  by (simp add: pre_save_def)

lemma save_duplicate:
  "valid_doc sc d \<Longrightarrow> email d \<in> set (map email db) \<Longrightarrow>
   save sc salt None d db = Inl duplicate_key_error"
  by (simp add: save_def Let_def pre_save_email)

lemma register_created:
  assumes "r2_post_register sc ev n (Str e) p st = (Inr r, st')" and "status r = 201"
  shows "\<exists>d. users st' = users st @ [d] \<and> email d = toLowerCase (trim e)"
  using assms unfolding r2_post_register_def save_def
  by (auto simp: Let_def reply_def pre_save_email new_User_def cast_email_normalized
      split: if_splits option.splits sum.splits)

lemma findOne_email_Some:
  "d \<in> set db \<Longrightarrow> email d = cast_email sc e \<Longrightarrow> findOne_email sc e db \<noteq> None"
  by (auto simp: findOne_email_def find_None_iff)

lemma register_known_email:
  assumes "findOne_email sc (toLowerCase (trim e)) (users st) \<noteq> None"
  shows "snd (r2_post_register sc ev n (Str e) p st) = st"
    and "success (fst (respond errorHandler (r2_post_register sc ev n (Str e) p st))) = False"
    and "success (fst (respond global_error_handler (r2_post_register sc ev n (Str e) p st))) = False"
  using assms unfolding r2_post_register_def respond_def
  by (auto simp: Let_def reply_def error_handlers_fail split: option.splits sum.splits)

lemma register_known_email_reply:
  assumes "findOne_email sc (toLowerCase (trim e)) (users st) \<noteq> None"
    and "2 \<le> length (trim n)" and "policy_spec pw"
  shows "fst (r2_post_register sc ev (Str n) (Str e) (Str pw) st)
         = Inr (reply 400 False ''User with this email already exists'')"
  using assms unfolding r2_post_register_def weak_iff_policy
  by (cases "n = []") (auto simp: Let_def trim_def split: option.splits sum.splits)

lemma register_twice:
  assumes "r2_post_register sc ev n (Str e) p st = (Inr r, st')" and "status r = 201"
    and "normalized e2 = normalized e"
  shows "findOne_email sc (toLowerCase (trim e2)) (users st') \<noteq> None"
proof -
  from assms(1,2) obtain d where d: "users st' = users st @ [d]" "email d = toLowerCase (trim e)"
    using register_created by blast
  with assms(3) have "email d = cast_email sc (toLowerCase (trim e2))"
    by (simp add: normalized_def cast_email_normalized)
  moreover from d have "d \<in> set (users st')" by simp
  ultimately show ?thesis by (rule findOne_email_Some[rotated])
qed

section \<open>Reset tokens\<close>

text \<open>
  The query by token finds a user exactly when the token is live; a valid document is
  always written by \<open>save\<close>.
\<close>

lemma findOne_token_None: "(findOne_token t tm db = None) = (\<not> token_live t tm db)"
  by (auto simp: findOne_token_def find_None_iff token_live_def list_ex_iff holds_token_def
      split: option.splits)

lemma findOne_token_Some:
  "findOne_token t tm db = Some u \<Longrightarrow> u \<in> set db \<and> holds_token t tm u"
  by (auto simp: findOne_token_def find_Some_iff holds_token_def split: option.splits)

lemma findOne_email_mem: "findOne_email sc e db = Some u \<Longrightarrow> u \<in> set db"
  by (auto simp: findOne_email_def find_Some_iff)

lemma save_existing:
  "valid_doc sc d \<Longrightarrow>
   save sc salt (Some u) d db
   = Inr (map (\<lambda>x. if uid x = uid u then pre_save sc salt (Some u) d else x) db)"
  by (simp add: save_def Let_def)

lemma save_invalid: "\<not> valid_doc sc d \<Longrightarrow> save sc salt orig d db = Inl validation_error"
  by (simp add: save_def)

lemma r2_get_reset:
  "r2_get_reset_password ev t st
   = (Inr (if token_live t (now ev) (users st) then reply 200 True ''Token is valid''
           else invalid_or_expired), st)"
  using findOne_token_None [of t "now ev" "users st"]
  by (auto simp: r2_get_reset_password_def invalid_or_expired_def split: option.splits)

lemma r1_get_reset:
  "t \<noteq> [] \<Longrightarrow> r1_get_reset_password ev t st
   = (Inr (if token_live t (now ev) (users st) then reply 200 True ''Token is valid''
           else invalid_or_expired), st)"
  using findOne_token_None [of t "now ev" "users st"]
  by (auto simp: r1_get_reset_password_def invalid_or_expired_def split: option.splits)

lemma policy_length: "policy_spec pw \<Longrightarrow> 8 \<le> length pw"
  by (simp add: policy_spec_def)

lemma valid_after_reset:
  "valid_doc sc u \<Longrightarrow> 8 \<le> pw_length x \<Longrightarrow>
   valid_doc sc (u\<lparr>password := x, resetPasswordToken := a, resetPasswordExpire := b\<rparr>)"
  by (simp add: valid_doc_def)

lemma r2_post_reset_token:
  assumes "policy_spec pw" and "list_all (valid_doc sc) (users st)"
  shows "fst (r2_post_reset_password sc ev t (Str pw) st)
   = Inr (if token_live t (now ev) (users st)
          then reply 200 True ''Password has been reset successfully''
          else invalid_or_expired)"
proof (cases "findOne_token t (now ev) (users st)")
  case None
  with assms(1) show ?thesis
    unfolding r2_post_reset_password_def weak_iff_policy
    using findOne_token_None [of t "now ev" "users st"]
    by (simp add: invalid_or_expired_def)
next
  case (Some u)
  then have "u \<in> set (users st)" using findOne_token_Some by blast
  with assms(2) have "valid_doc sc u" by (simp add: list_all_iff)
  then have "valid_doc sc (u\<lparr>password := Plain pw, resetPasswordToken := None,
                              resetPasswordExpire := None\<rparr>)"
    using assms(1) by (simp add: valid_after_reset policy_length)
  with Some assms(1) show ?thesis
    unfolding r2_post_reset_password_def weak_iff_policy
    using findOne_token_None [of t "now ev" "users st"]
    by (simp add: Let_def save_existing)
qed

lemma r1_post_reset_token:
  assumes "policy_spec pw" and "list_all (valid_doc sc) (users st)" and "t \<noteq> []"
  shows "fst (r1_post_reset_password sc ev t (Str pw) st)
   = Inr (if token_live t (now ev) (users st)
          then reply 200 True ''Password has been reset successfully''
          else invalid_or_expired)"
proof (cases "findOne_token t (now ev) (users st)")
  case None
  with assms(1,3) show ?thesis
    unfolding r1_post_reset_password_def weak_iff_policy
    using findOne_token_None [of t "now ev" "users st"]
    by (simp add: invalid_or_expired_def)
next
  case (Some u)
  then have "u \<in> set (users st)" using findOne_token_Some by blast
  with assms(2) have "valid_doc sc u" by (simp add: list_all_iff)
  then have "valid_doc sc (u\<lparr>password := bcrypt_hash (Plain pw) (12, route_salt ev),
       resetPasswordToken := None, resetPasswordExpire := None\<rparr>)"
    by (simp add: valid_after_reset bcrypt_hash_def)
  with Some assms(1,3) show ?thesis
    unfolding r1_post_reset_password_def weak_iff_policy
    using findOne_token_None [of t "now ev" "users st"]
    by (simp add: Let_def save_existing)
qed

lemma pre_save_unmodified:
  "password d = password u \<Longrightarrow> pre_save sc salt (Some u) d = d"
  by (simp add: pre_save_def isModified_password_def)

lemma r2_forgot_success:
  assumes "fst (r2_post_forgot_password sc ev (Str e) st)
           = Inr (reply 200 True ''Password reset email sent if account exists'')"
  shows "\<exists>u. findOne_email sc (toLowerCase e) (users st) = Some u
     \<and> users (snd (r2_post_forgot_password sc ev (Str e) st))
       = map (\<lambda>x. if uid x = uid u
                  then u\<lparr>resetPasswordToken := Some (random_token ev),
                         resetPasswordExpire := Some (now ev + 3600000)\<rparr>
                  else x) (users st)"
  using assms unfolding r2_post_forgot_password_def sendResetEmail_def save_def
  by (auto simp: Let_def reply_def pre_save_unmodified split: if_splits option.splits sum.splits)

lemma r1_forgot_success:
  assumes "fst (r1_post_forgot_password sc ev (Str e) st)
           = Inr (reply 200 True ''Password reset email sent if account exists'')"
  shows "\<exists>u. findOne_email sc (toLowerCase e) (users st) = Some u
     \<and> users (snd (r1_post_forgot_password sc ev (Str e) st))
       = map (\<lambda>x. if uid x = uid u
                  then u\<lparr>resetPasswordToken := Some (random_token ev),
                         resetPasswordExpire := Some (now ev + 3600000)\<rparr>
                  else x) (users st)"
  using assms unfolding r1_post_forgot_password_def sendResetEmail_def save_def
  by (auto simp: Let_def reply_def pre_save_unmodified split: if_splits option.splits sum.splits)

lemma token_live_issued:
  assumes "u \<in> set db"
    and "\<not> list_ex (\<lambda>x. resetPasswordToken x = Some tok) db"
  shows "token_live tok t
           (map (\<lambda>x. if uid x = uid u
                      then u\<lparr>resetPasswordToken := Some tok, resetPasswordExpire := Some ex\<rparr>
                      else x) db)
         = (t < ex)"
proof -
  let ?u' = "u\<lparr>resetPasswordToken := Some tok, resetPasswordExpire := Some ex\<rparr>"
  let ?f = "\<lambda>x. if uid x = uid u then ?u' else x"
  have new: "holds_token tok t ?u' = (t < ex)" by (simp add: holds_token_def)
  have old: "\<not> holds_token tok t x" if "x \<in> set db" for x
    using that assms(2) by (auto simp: list_ex_iff holds_token_def)
  have "token_live tok t (map ?f db) = (\<exists>x \<in> set db. holds_token tok t (?f x))"
    by (simp only: token_live_def list_ex_iff set_map bex_simps)
  also have "\<dots> = (t < ex)"
  proof
    assume "\<exists>x \<in> set db. holds_token tok t (?f x)"
    then obtain x where x: "x \<in> set db" "holds_token tok t (?f x)" by blast
    show "t < ex"
    proof (cases "uid x = uid u")
      case True
      with x(2) new show ?thesis by simp
    next
      case False
      with x old show ?thesis by simp
    qed
  next
    assume "t < ex"
    with new have "holds_token tok t (?f u)" by simp
    with assms(1) show "\<exists>x \<in> set db. holds_token tok t (?f x)" by blast
  qed
  finally show ?thesis .
qed

lemma r2_issue_expiry:
  assumes "fst (r2_post_forgot_password sc ev (Str e) st)
           = Inr (reply 200 True ''Password reset email sent if account exists'')"
    and "\<not> list_ex (\<lambda>x. resetPasswordToken x = Some (random_token ev)) (users st)"
  shows "token_live (random_token ev) t (users (snd (r2_post_forgot_password sc ev (Str e) st)))
         = (t < now ev + 3600000)"
proof -
  from r2_forgot_success [OF assms(1)] obtain u where
    u: "findOne_email sc (toLowerCase e) (users st) = Some u"
    and db: "users (snd (r2_post_forgot_password sc ev (Str e) st))
       = map (\<lambda>x. if uid x = uid u
                  then u\<lparr>resetPasswordToken := Some (random_token ev),
                         resetPasswordExpire := Some (now ev + 3600000)\<rparr>
                  else x) (users st)"
    by blast
  from u have "u \<in> set (users st)" by (rule findOne_email_mem)
  then show ?thesis
    unfolding db using assms(2) by (rule token_live_issued)
qed

lemma r1_issue_expiry:
  assumes "fst (r1_post_forgot_password sc ev (Str e) st)
           = Inr (reply 200 True ''Password reset email sent if account exists'')"
    and "\<not> list_ex (\<lambda>x. resetPasswordToken x = Some (random_token ev)) (users st)"
  shows "token_live (random_token ev) t (users (snd (r1_post_forgot_password sc ev (Str e) st)))
         = (t < now ev + 3600000)"
proof -
  from r1_forgot_success [OF assms(1)] obtain u where
    u: "findOne_email sc (toLowerCase e) (users st) = Some u"
    and db: "users (snd (r1_post_forgot_password sc ev (Str e) st))
       = map (\<lambda>x. if uid x = uid u
                  then u\<lparr>resetPasswordToken := Some (random_token ev),
                         resetPasswordExpire := Some (now ev + 3600000)\<rparr>
                  else x) (users st)"
    by blast
  from u have "u \<in> set (users st)" by (rule findOne_email_mem)
  then show ?thesis
    unfolding db using assms(2) by (rule token_live_issued)
qed

text \<open>The reset handlers, with the password condition folded into \<open>password_refused\<close>.\<close>

lemma r2_post_reset_unfold:
  "r2_post_reset_password sc ev t p st =
     (if password_refused p then (Inr policy_error, st)
      else case findOne_token t (now ev) (users st) of
             None \<Rightarrow> (Inr invalid_or_expired, st)
           | Some u \<Rightarrow>
               (case save sc (hook_salt ev) (Some u)
                       (u\<lparr>password := Plain (str_of p), resetPasswordToken := None,
                          resetPasswordExpire := None\<rparr>) (users st) of
                  Inl e \<Rightarrow> (Inl e, st)
                | Inr db \<Rightarrow>
                    (Inr (reply 200 True ''Password has been reset successfully''),
                     st\<lparr>users := db\<rparr>)))"
  by (simp only: r2_post_reset_password_def password_refused_def policy_error_def
      invalid_or_expired_def Let_def)

lemma r1_post_reset_unfold:
  "r1_post_reset_password sc ev t p st =
     (if t = [] then (Inr (reply 400 False ''Invalid token''), st)
      else if password_refused p then (Inr policy_error, st)
      else case findOne_token t (now ev) (users st) of
             None \<Rightarrow> (Inr invalid_or_expired, st)
           | Some u \<Rightarrow>
               (case save sc (hook_salt ev) (Some u)
                       (u\<lparr>password := bcrypt_hash (Plain (str_of p)) (12, route_salt ev),
                          resetPasswordToken := None,
                          resetPasswordExpire := None\<rparr>) (users st) of
                  Inl e \<Rightarrow> (Inl e, st)
                | Inr db \<Rightarrow>
                    (Inr (reply 200 True ''Password has been reset successfully''),
                     st\<lparr>users := db\<rparr>)))"
  by (simp only: r1_post_reset_password_def password_refused_def policy_error_def
      invalid_or_expired_def Let_def)

lemma reset_ok_neq:
  "reply 200 True ''Password has been reset successfully'' \<noteq> policy_error"
  "reply 200 True ''Password has been reset successfully'' \<noteq> invalid_or_expired"
  "reply 200 True ''Password has been reset successfully'' \<noteq> reply 400 False ''Invalid token''"
  by (simp_all add: reply_def policy_error_def invalid_or_expired_def)

lemma r2_reset_success:
  assumes "fst (r2_post_reset_password sc ev t p st)
           = Inr (reply 200 True ''Password has been reset successfully'')"
  shows "\<exists>u. findOne_token t (now ev) (users st) = Some u
     \<and> users (snd (r2_post_reset_password sc ev t p st))
       = map (\<lambda>x. if uid x = uid u
                  then pre_save sc (hook_salt ev) (Some u)
                         (u\<lparr>password := Plain (str_of p), resetPasswordToken := None,
                            resetPasswordExpire := None\<rparr>)
                  else x) (users st)"
proof -
  from assms have ok: "\<not> password_refused p"
    by (auto simp: r2_post_reset_unfold reset_ok_neq [symmetric])
  with assms obtain u where u: "findOne_token t (now ev) (users st) = Some u"
    by (cases "findOne_token t (now ev) (users st)")
       (auto simp: r2_post_reset_unfold reset_ok_neq [symmetric])
  let ?d = "u\<lparr>password := Plain (str_of p), resetPasswordToken := None,
               resetPasswordExpire := None\<rparr>"
  from assms ok u have "valid_doc sc ?d"
    by (cases "valid_doc sc ?d") (simp_all add: r2_post_reset_unfold save_invalid)
  with ok u show ?thesis
    by (simp add: r2_post_reset_unfold save_existing)
qed

lemma r1_reset_success:
  assumes "fst (r1_post_reset_password sc ev t p st)
           = Inr (reply 200 True ''Password has been reset successfully'')"
  shows "t \<noteq> [] \<and> (\<exists>u. findOne_token t (now ev) (users st) = Some u
     \<and> users (snd (r1_post_reset_password sc ev t p st))
       = map (\<lambda>x. if uid x = uid u
                  then pre_save sc (hook_salt ev) (Some u)
                         (u\<lparr>password := bcrypt_hash (Plain (str_of p)) (12, route_salt ev),
                            resetPasswordToken := None, resetPasswordExpire := None\<rparr>)
                  else x) (users st))"
proof -
  from assms have t: "t \<noteq> []"
    by (auto simp: r1_post_reset_unfold reset_ok_neq [symmetric])
  with assms have ok: "\<not> password_refused p"
    by (auto simp: r1_post_reset_unfold reset_ok_neq [symmetric])
  with assms t obtain u where u: "findOne_token t (now ev) (users st) = Some u"
    by (cases "findOne_token t (now ev) (users st)")
       (auto simp: r1_post_reset_unfold reset_ok_neq [symmetric])
  let ?d = "u\<lparr>password := bcrypt_hash (Plain (str_of p)) (12, route_salt ev),
               resetPasswordToken := None, resetPasswordExpire := None\<rparr>"
  from assms t ok u have "valid_doc sc ?d"
    by (cases "valid_doc sc ?d") (simp_all add: r1_post_reset_unfold save_invalid)
  with t ok u show ?thesis
    by (simp add: r1_post_reset_unfold save_existing)
qed

lemma pre_save_token:
  "resetPasswordToken (pre_save sc salt orig d) = resetPasswordToken d"
  "resetPasswordExpire (pre_save sc salt orig d) = resetPasswordExpire d"
  "uid (pre_save sc salt orig d) = uid d"
  by (simp_all add: pre_save_def)

lemma token_dead_after_clear:
  assumes "token_unique t db" and "u \<in> set db" and "resetPasswordToken u = Some t"
    and "resetPasswordToken d = None"
  shows "\<not> token_live t tm (map (\<lambda>x. if uid x = uid u then d else x) db)"
proof
  let ?f = "\<lambda>x. if uid x = uid u then d else x"
  assume "token_live t tm (map ?f db)"
  then have "\<exists>x \<in> set db. holds_token t tm (?f x)"
    by (simp only: token_live_def list_ex_iff set_map bex_simps)
  then obtain x where x: "x \<in> set db" and h: "holds_token t tm (?f x)" ..
  show False
  proof (cases "uid x = uid u")
    case True
    with h assms(4) show ?thesis by (simp add: holds_token_def)
  next
    case False
    with h have "resetPasswordToken x = Some t" by (simp add: holds_token_def)
    moreover from assms(1) x assms(2)
    have "resetPasswordToken x = Some t \<and> resetPasswordToken u = Some t \<longrightarrow> uid x = uid u"
      unfolding token_unique_def list_all_iff by blast
    ultimately show ?thesis using False assms(3) by simp
  qed
qed

lemma r2_post_reset_dead:
  assumes "\<not> token_live t (now ev) (users st)"
  shows "snd (r2_post_reset_password sc ev t p st) = st"
    and "fst (r2_post_reset_password sc ev t p st) = Inr policy_error
         \<or> fst (r2_post_reset_password sc ev t p st) = Inr invalid_or_expired"
  using assms findOne_token_None [of t "now ev" "users st"]
  unfolding r2_post_reset_unfold
  by auto

lemma r1_post_reset_dead:
  assumes "\<not> token_live t (now ev) (users st)" and "t \<noteq> []"
  shows "snd (r1_post_reset_password sc ev t p st) = st"
    and "fst (r1_post_reset_password sc ev t p st) = Inr policy_error
         \<or> fst (r1_post_reset_password sc ev t p st) = Inr invalid_or_expired"
  using assms findOne_token_None [of t "now ev" "users st"]
  unfolding r1_post_reset_unfold
  by auto

lemma r2_reset_consumes:
  assumes uniq: "token_unique t (users st)"
    and ok: "r2_post_reset_password sc ev t p st
             = (Inr (reply 200 True ''Password has been reset successfully''), st')"
  shows "\<exists>u d. findOne_token t (now ev) (users st) = Some u
           \<and> d = pre_save sc (hook_salt ev) (Some u)
                   (u\<lparr>password := Plain (str_of p), resetPasswordToken := None,
                      resetPasswordExpire := None\<rparr>)
           \<and> users st' = map (\<lambda>x. if uid x = uid u then d else x) (users st)
           \<and> resetPasswordToken d = None \<and> resetPasswordExpire d = None"
    and "\<not> token_live t tm (users st')"
proof -
  from ok have f: "fst (r2_post_reset_password sc ev t p st)
           = Inr (reply 200 True ''Password has been reset successfully'')"
    and s: "snd (r2_post_reset_password sc ev t p st) = st'" by simp_all
  from r2_reset_success [OF f] s obtain u where
    u: "findOne_token t (now ev) (users st) = Some u"
    and db: "users st' = map (\<lambda>x. if uid x = uid u
                  then pre_save sc (hook_salt ev) (Some u)
                         (u\<lparr>password := Plain (str_of p), resetPasswordToken := None,
                            resetPasswordExpire := None\<rparr>)
                  else x) (users st)"
    by auto
  show "\<exists>u d. findOne_token t (now ev) (users st) = Some u
           \<and> d = pre_save sc (hook_salt ev) (Some u)
                   (u\<lparr>password := Plain (str_of p), resetPasswordToken := None,
                      resetPasswordExpire := None\<rparr>)
           \<and> users st' = map (\<lambda>x. if uid x = uid u then d else x) (users st)
           \<and> resetPasswordToken d = None \<and> resetPasswordExpire d = None"
    using u db by (simp add: pre_save_token)
  from findOne_token_Some [OF u] have "u \<in> set (users st)" "resetPasswordToken u = Some t"
    by (simp_all add: holds_token_def)
  with uniq show "\<not> token_live t tm (users st')"
    unfolding db by (rule token_dead_after_clear) (simp add: pre_save_token)
qed

lemma r1_reset_consumes:
  assumes uniq: "token_unique t (users st)"
    and ok: "r1_post_reset_password sc ev t p st
             = (Inr (reply 200 True ''Password has been reset successfully''), st')"
  shows "\<exists>u d. findOne_token t (now ev) (users st) = Some u
           \<and> d = pre_save sc (hook_salt ev) (Some u)
                   (u\<lparr>password := bcrypt_hash (Plain (str_of p)) (12, route_salt ev),
                      resetPasswordToken := None, resetPasswordExpire := None\<rparr>)
           \<and> users st' = map (\<lambda>x. if uid x = uid u then d else x) (users st)
           \<and> resetPasswordToken d = None \<and> resetPasswordExpire d = None"
    and "\<not> token_live t tm (users st')"
    and "t \<noteq> []"
proof -
  from ok have f: "fst (r1_post_reset_password sc ev t p st)
           = Inr (reply 200 True ''Password has been reset successfully'')"
    and s: "snd (r1_post_reset_password sc ev t p st) = st'" by simp_all
  from r1_reset_success [OF f] s obtain u where
    t: "t \<noteq> []" and
    u: "findOne_token t (now ev) (users st) = Some u"
    and db: "users st' = map (\<lambda>x. if uid x = uid u
                  then pre_save sc (hook_salt ev) (Some u)
                         (u\<lparr>password := bcrypt_hash (Plain (str_of p)) (12, route_salt ev),
                            resetPasswordToken := None, resetPasswordExpire := None\<rparr>)
                  else x) (users st)"
    by auto
  show "t \<noteq> []" by (rule t)
  show "\<exists>u d. findOne_token t (now ev) (users st) = Some u
           \<and> d = pre_save sc (hook_salt ev) (Some u)
                   (u\<lparr>password := bcrypt_hash (Plain (str_of p)) (12, route_salt ev),
                      resetPasswordToken := None, resetPasswordExpire := None\<rparr>)
           \<and> users st' = map (\<lambda>x. if uid x = uid u then d else x) (users st)
           \<and> resetPasswordToken d = None \<and> resetPasswordExpire d = None"
    using u db by (simp add: pre_save_token)
  from findOne_token_Some [OF u] have "u \<in> set (users st)" "resetPasswordToken u = Some t"
    by (simp_all add: holds_token_def)
  with uniq show "\<not> token_live t tm (users st')"
    unfolding db by (rule token_dead_after_clear) (simp add: pre_save_token)
qed

section \<open>The pairing of token and expiry\<close>

lemma pre_save_paired: "paired (pre_save sc salt orig d) = paired d"
  by (simp add: paired_def pre_save_token)

lemma list_all_replace:
  "list_all P db \<Longrightarrow> P d \<Longrightarrow> list_all P (map (\<lambda>x. if c x then d else x) db)"
  by (induction db) auto

lemma save_paired:
  assumes "save sc salt orig d db = Inr db'" and "list_all paired db" and "paired d"
  shows "list_all paired db'"
proof (cases orig)
  case None
  with assms show ?thesis
    by (auto simp: save_def Let_def pre_save_paired split: if_splits)
next
  case (Some u)
  with assms(1) have "db' = map (\<lambda>x. if uid x = uid u then pre_save sc salt (Some u) d else x) db"
    by (auto simp: save_def Let_def split: if_splits)
  moreover from assms(3) have "paired (pre_save sc salt (Some u) d)"
    by (simp add: pre_save_paired)
  ultimately show ?thesis
    using assms(2) by (simp only: list_all_replace)
qed

lemma r2_post_register_unfold:
  "r2_post_register sc ev n e p st =
     (if \<not> truthy n then (Inr (reply 400 False ''Name is required''), st)
      else if \<not> is_string n then (Inl (plain_error ''fullName.trim is not a function''), st)
      else if length (trim (str_of n)) < 2 then (Inr (reply 400 False ''Name is required''), st)
      else if password_refused p then (Inr policy_error, st)
      else if \<not> is_string e then (Inl (plain_error ''email.trim is not a function''), st)
      else case findOne_email sc (toLowerCase (trim (str_of e))) (users st) of
             Some existingUser \<Rightarrow>
               (Inr (reply 400 False ''User with this email already exists''), st)
           | None \<Rightarrow>
               (case save sc (hook_salt ev) None
                       (new_User sc (object_id ev) (trim (str_of n))
                          (toLowerCase (trim (str_of e))) (str_of p)) (users st) of
                  Inl err \<Rightarrow> (Inl err, st)
                | Inr db \<Rightarrow>
                    (Inr \<lparr>status = 201, success = True,
                          message = ''User registered successfully'',
                          user = Some (uid (new_User sc (object_id ev) (trim (str_of n))
                                              (toLowerCase (trim (str_of e))) (str_of p)),
                                       email (new_User sc (object_id ev) (trim (str_of n))
                                              (toLowerCase (trim (str_of e))) (str_of p)))\<rparr>,
                     st\<lparr>users := db\<rparr>)))"
  by (simp only: r2_post_register_def password_refused_def policy_error_def Let_def)

lemma new_User_paired: "paired (new_User sc oid nm em pw)"
  by (simp add: new_User_def paired_def)

lemma register_paired:
  assumes "list_all paired (users st)"
  shows "list_all paired (users (snd (r2_post_register sc ev n e p st)))"
proof (cases "save sc (hook_salt ev) None
                       (new_User sc (object_id ev) (trim (str_of n))
                          (toLowerCase (trim (str_of e))) (str_of p)) (users st)")
  case (Inl err)
  with assms show ?thesis
    by (simp add: r2_post_register_unfold split: option.splits)
next
  case (Inr db)
  from save_paired [OF Inr assms new_User_paired] have "list_all paired db" .
  with assms Inr show ?thesis
    by (simp add: r2_post_register_unfold split: option.splits)
qed


lemma login_state: "snd (r2_post_login sc e p st) = st"
  by (simp add: r2_post_login_def Let_def split: option.splits sum.splits)

lemma r2_get_state: "snd (r2_get_reset_password ev t st) = st"
  by (simp add: r2_get_reset)

lemma r1_get_state: "snd (r1_get_reset_password ev t st) = st"
  by (simp add: r1_get_reset_password_def split: option.splits)

lemma sendResetEmail_users: "sendResetEmail ev e t st = Inr st' \<Longrightarrow> users st' = users st"
  by (auto simp: sendResetEmail_def split: if_splits)

lemma issued_paired:
  "paired (u\<lparr>resetPasswordToken := Some tok, resetPasswordExpire := Some ex\<rparr>)"
  "paired (u\<lparr>password := x, resetPasswordToken := None, resetPasswordExpire := None\<rparr>)"
  by (simp_all add: paired_def)

lemma r2_forgot_paired:
  assumes "list_all paired (users st)"
  shows "list_all paired (users (snd (r2_post_forgot_password sc ev e st)))"
proof (cases "findOne_email sc (toLowerCase (str_of e)) (users st)")
  case None
  with assms show ?thesis by (simp add: r2_post_forgot_password_def)
next
  case (Some u)
  let ?d = "u\<lparr>resetPasswordToken := Some (random_token ev),
               resetPasswordExpire := Some (now ev + 3600000)\<rparr>"
  show ?thesis
  proof (cases "save sc (hook_salt ev) (Some u) ?d (users st)")
    case (Inl err)
    with Some assms show ?thesis by (simp add: r2_post_forgot_password_def Let_def)
  next
    case (Inr db)
    from save_paired [OF Inr assms issued_paired(1)] have db: "list_all paired db" .
    show ?thesis
    proof (cases "sendResetEmail ev (email ?d) (random_token ev) (st\<lparr>users := db\<rparr>)")
      case (Inl err)
      with Some Inr db assms show ?thesis by (simp add: r2_post_forgot_password_def Let_def)
    next
      case (Inr st')
      from sendResetEmail_users [OF Inr] db have "list_all paired (users st')" by simp
      with Some \<open>save sc (hook_salt ev) (Some u) ?d (users st) = Inr db\<close> Inr assms
      show ?thesis by (simp add: r2_post_forgot_password_def Let_def)
    qed
  qed
qed

lemma r1_forgot_paired:
  assumes "list_all paired (users st)"
  shows "list_all paired (users (snd (r1_post_forgot_password sc ev e st)))"
proof (cases "findOne_email sc (toLowerCase (str_of e)) (users st)")
  case None
  with assms show ?thesis by (simp add: r1_post_forgot_password_def)
next
  case (Some u)
  let ?d = "u\<lparr>resetPasswordToken := Some (random_token ev),
               resetPasswordExpire := Some (now ev + 3600000)\<rparr>"
  show ?thesis
  proof (cases "save sc (hook_salt ev) (Some u) ?d (users st)")
    case (Inl err)
    with Some assms show ?thesis by (simp add: r1_post_forgot_password_def Let_def)
  next
    case (Inr db)
    from save_paired [OF Inr assms issued_paired(1)] have db: "list_all paired db" .
    show ?thesis
    proof (cases "sendResetEmail ev (email ?d) (random_token ev) (st\<lparr>users := db\<rparr>)")
      case (Inl err)
      with Some Inr db assms show ?thesis by (simp add: r1_post_forgot_password_def Let_def)
    next
      case (Inr st')
      from sendResetEmail_users [OF Inr] db have "list_all paired (users st')" by simp
      with Some \<open>save sc (hook_salt ev) (Some u) ?d (users st) = Inr db\<close> Inr assms
      show ?thesis by (simp add: r1_post_forgot_password_def Let_def)
    qed
  qed
qed

lemma r2_reset_paired:
  assumes "list_all paired (users st)"
  shows "list_all paired (users (snd (r2_post_reset_password sc ev t p st)))"
proof (cases "findOne_token t (now ev) (users st)")
  case None
  with assms show ?thesis by (simp add: r2_post_reset_unfold)
next
  case (Some u)
  let ?d = "u\<lparr>password := Plain (str_of p), resetPasswordToken := None,
               resetPasswordExpire := None\<rparr>"
  show ?thesis
  proof (cases "save sc (hook_salt ev) (Some u) ?d (users st)")
    case (Inl err)
    with Some assms show ?thesis by (simp add: r2_post_reset_unfold)
  next
    case (Inr db)
    from save_paired [OF Inr assms issued_paired(2)] have "list_all paired db" .
    with Some Inr assms show ?thesis by (simp add: r2_post_reset_unfold)
  qed
qed

lemma r1_reset_paired:
  assumes "list_all paired (users st)"
  shows "list_all paired (users (snd (r1_post_reset_password sc ev t p st)))"
proof (cases "findOne_token t (now ev) (users st)")
  case None
  with assms show ?thesis by (simp add: r1_post_reset_unfold)
next
  case (Some u)
  let ?d = "u\<lparr>password := bcrypt_hash (Plain (str_of p)) (12, route_salt ev),
               resetPasswordToken := None, resetPasswordExpire := None\<rparr>"
  show ?thesis
  proof (cases "save sc (hook_salt ev) (Some u) ?d (users st)")
    case (Inl err)
    with Some assms show ?thesis by (simp add: r1_post_reset_unfold)
  next
    case (Inr db)
    from save_paired [OF Inr assms issued_paired(2)] have "list_all paired db" .
    with Some Inr assms show ?thesis by (simp add: r1_post_reset_unfold)
  qed
qed

section \<open>Forgot-password and white space\<close>

lemma trim_head: "trim s = [] \<or> \<not> is_ws (hd (trim s))"
  by (metis dropWhile_eq_self_iff trim_def trim_idem rev_rev_ident dropWhile_rev_dropWhile hd_dropWhile)

lemma findOne_email_untrimmed:
  assumes "\<not> trim_email sc" and "is_ws c"
    and "list_all (\<lambda>u. email u = trim (email u)) db"
  shows "findOne_email sc (toLowerCase (c # e)) db = None"
proof -
  have "email u \<noteq> cast_email sc (toLowerCase (c # e))" if "u \<in> set db" for u
  proof
    assume eq: "email u = cast_email sc (toLowerCase (c # e))"
    with assms(1) have "email u \<noteq> []" and "is_ws (hd (email u))"
      using assms(2) by (simp_all add: cast_email_def toLowerCase_def is_ws_lower_char)
    moreover from that assms(3) have "email u = trim (email u)" by (simp add: list_all_iff)
    ultimately show False using trim_head [of "email u"] by simp
  qed
  then show ?thesis by (simp add: findOne_email_def find_None_iff)
qed

lemma r2_forgot_unknown:
  "e \<noteq> [] \<Longrightarrow> findOne_email sc (toLowerCase e) (users st) = None \<Longrightarrow>
   r2_post_forgot_password sc ev (Str e) st
   = (Inr (reply 200 True ''If an account with that email exists, a reset link will be sent''), st)"
  by (simp add: r2_post_forgot_password_def)

lemma r1_forgot_unknown:
  "e \<noteq> [] \<Longrightarrow> findOne_email sc (toLowerCase e) (users st) = None \<Longrightarrow>
   r1_post_forgot_password sc ev (Str e) st
   = (Inr (reply 404 False ''No account found with that email''), st)"
  by (simp add: r1_post_forgot_password_def)

section \<open>Hashing at reset\<close>

lemma replaced_doc:
  assumes "v \<in> set (map (\<lambda>x. if uid x = uid u then d else x) db)" and "uid v = uid u"
  shows "v = d"
proof -
  from assms(1) obtain x where "x \<in> set db" and "v = (if uid x = uid u then d else x)"
    by (auto simp only: set_map image_iff)
  with assms(2) show ?thesis by (cases "uid x = uid u") simp_all
qed

lemma password_refused_empty: "password_refused (Str [])"
  by (simp add: password_refused_def)

lemma r1_reset_success_nonempty:
  assumes "fst (r1_post_reset_password sc ev t (Str pw) st)
           = Inr (reply 200 True ''Password has been reset successfully'')"
  shows "pw \<noteq> []"
  using assms password_refused_empty
  by (cases "t = []"; cases "pw = []") (simp_all add: r1_post_reset_unfold reset_ok_neq [symmetric])

section \<open>Invariants of the reachable states\<close>

text \<open>
  Every request leaves the collection unchanged, appends a valid document without a
  token, or replaces the documents of one \<open>_id\<close> by a valid document that keeps the
  email and either has no token or has the fresh one. Hence every reachable state
  holds only valid documents with trimmed emails and paired reset fields, and no
  token is held under two \<open>_id\<close>s.
\<close>

lemma pre_save_valid: "valid_doc sc d \<Longrightarrow> valid_doc sc (pre_save sc salt orig d)"
  by (simp add: valid_doc_def pre_save_def bcrypt_hash_def)

lemma trim_normalized: "trim (toLowerCase (trim e)) = toLowerCase (trim e)"
  by (simp add: trim_toLowerCase trim_idem)

lemma save_new_effect:
  assumes "save sc salt None (new_User sc oid nm (toLowerCase (trim e)) pw) db = Inr db'"
  shows "appended sc db db'"
proof -
  let ?d = "new_User sc oid nm (toLowerCase (trim e)) pw"
  from assms have v: "valid_doc sc ?d" and db': "db' = db @ [pre_save sc salt None ?d]"
    by (auto simp: save_def Let_def split: if_splits)
  have "email ?d = toLowerCase (trim e)" by (simp add: new_User_def cast_email_normalized)
  then have "email (pre_save sc salt None ?d) = trim (email (pre_save sc salt None ?d))"
    by (simp add: pre_save_email trim_normalized)
  moreover have "resetPasswordToken (pre_save sc salt None ?d) = None"
    "resetPasswordExpire (pre_save sc salt None ?d) = None"
    by (simp_all add: pre_save_token new_User_def)
  ultimately show ?thesis
    unfolding appended_def using db' pre_save_valid [OF v] by blast
qed

lemma save_existing_effect:
  assumes "save sc salt (Some u) d db = Inr db'" and "u \<in> set db"
    and "email d = email u" and "uid d = uid u"
    and "resetPasswordToken d = None \<and> resetPasswordExpire d = None
         \<or> resetPasswordToken d = Some (random_token ev)
           \<and> resetPasswordExpire d = Some (now ev + 3600000)"
  shows "replaced sc ev db db'"
proof -
  let ?d = "pre_save sc salt (Some u) d"
  from assms(1) have v: "valid_doc sc d"
    and db': "db' = map (\<lambda>x. if uid x = uid u then ?d else x) db"
    by (auto simp: save_def Let_def split: if_splits)
  from assms(3,4,5) have "email ?d = email u" "uid ?d = uid u"
    "resetPasswordToken ?d = None \<and> resetPasswordExpire ?d = None
         \<or> resetPasswordToken ?d = Some (random_token ev)
           \<and> resetPasswordExpire ?d = Some (now ev + 3600000)"
    by (simp_all add: pre_save_email pre_save_token)
  with assms(2) db' pre_save_valid [OF v] show ?thesis
    unfolding replaced_def by blast
qed

lemma register_effect: "effect sc ev (users st) (users (snd (r2_post_register sc ev n e p st)))"
proof (cases "save sc (hook_salt ev) None
                       (new_User sc (object_id ev) (trim (str_of n))
                          (toLowerCase (trim (str_of e))) (str_of p)) (users st)")
  case (Inl err)
  then show ?thesis
    by (simp add: effect_def r2_post_register_unfold split: option.splits)
next
  case (Inr db)
  from save_new_effect [OF Inr] have "appended sc (users st) db" .
  with Inr show ?thesis
    by (simp add: effect_def r2_post_register_unfold split: option.splits)
qed

lemma forgot_doc_effect:
  assumes "findOne_email sc k (users st) = Some u"
    and "save sc (hook_salt ev) (Some u)
           (u\<lparr>resetPasswordToken := Some (random_token ev),
              resetPasswordExpire := Some (now ev + 3600000)\<rparr>) (users st) = Inr db"
  shows "replaced sc ev (users st) db"
  using assms(2) findOne_email_mem [OF assms(1)]
  by (rule save_existing_effect) simp_all

lemma r2_forgot_effect:
  "effect sc ev (users st) (users (snd (r2_post_forgot_password sc ev e st)))"
proof (cases "findOne_email sc (toLowerCase (str_of e)) (users st)")
  case None
  then show ?thesis by (simp add: effect_def r2_post_forgot_password_def)
next
  case (Some u)
  let ?d = "u\<lparr>resetPasswordToken := Some (random_token ev),
               resetPasswordExpire := Some (now ev + 3600000)\<rparr>"
  show ?thesis
  proof (cases "save sc (hook_salt ev) (Some u) ?d (users st)")
    case (Inl err)
    with Some show ?thesis by (simp add: effect_def r2_post_forgot_password_def Let_def)
  next
    case (Inr db)
    from forgot_doc_effect [OF Some Inr] have db: "replaced sc ev (users st) db" .
    show ?thesis
    proof (cases "sendResetEmail ev (email ?d) (random_token ev) (st\<lparr>users := db\<rparr>)")
      case (Inl err)
      with Some Inr db show ?thesis by (simp add: effect_def r2_post_forgot_password_def Let_def)
    next
      case (Inr st')
      from sendResetEmail_users [OF Inr] have "users st' = db" by simp
      with Some \<open>save sc (hook_salt ev) (Some u) ?d (users st) = Inr db\<close> Inr db
      show ?thesis by (simp add: effect_def r2_post_forgot_password_def Let_def)
    qed
  qed
qed

lemma r1_forgot_effect:
  "effect sc ev (users st) (users (snd (r1_post_forgot_password sc ev e st)))"
proof (cases "findOne_email sc (toLowerCase (str_of e)) (users st)")
  case None
  then show ?thesis by (simp add: effect_def r1_post_forgot_password_def)
next
  case (Some u)
  let ?d = "u\<lparr>resetPasswordToken := Some (random_token ev),
               resetPasswordExpire := Some (now ev + 3600000)\<rparr>"
  show ?thesis
  proof (cases "save sc (hook_salt ev) (Some u) ?d (users st)")
    case (Inl err)
    with Some show ?thesis by (simp add: effect_def r1_post_forgot_password_def Let_def)
  next
    case (Inr db)
    from forgot_doc_effect [OF Some Inr] have db: "replaced sc ev (users st) db" .
    show ?thesis
    proof (cases "sendResetEmail ev (email ?d) (random_token ev) (st\<lparr>users := db\<rparr>)")
      case (Inl err)
      with Some Inr db show ?thesis by (simp add: effect_def r1_post_forgot_password_def Let_def)
    next
      case (Inr st')
      from sendResetEmail_users [OF Inr] have "users st' = db" by simp
      with Some \<open>save sc (hook_salt ev) (Some u) ?d (users st) = Inr db\<close> Inr db
      show ?thesis by (simp add: effect_def r1_post_forgot_password_def Let_def)
    qed
  qed
qed

lemma reset_doc_effect:
  assumes "findOne_token t tm (users st) = Some u"
    and "save sc (hook_salt ev) (Some u)
           (u\<lparr>password := x, resetPasswordToken := None, resetPasswordExpire := None\<rparr>)
           (users st) = Inr db"
  shows "replaced sc ev (users st) db"
proof -
  from findOne_token_Some [OF assms(1)] have "u \<in> set (users st)" by simp
  with assms(2) show ?thesis by (rule save_existing_effect) simp_all
qed

lemma r2_reset_effect:
  "effect sc ev (users st) (users (snd (r2_post_reset_password sc ev t p st)))"
proof (cases "findOne_token t (now ev) (users st)")
  case None
  then show ?thesis by (simp add: effect_def r2_post_reset_unfold)
next
  case (Some u)
  let ?d = "u\<lparr>password := Plain (str_of p), resetPasswordToken := None,
               resetPasswordExpire := None\<rparr>"
  show ?thesis
  proof (cases "save sc (hook_salt ev) (Some u) ?d (users st)")
    case (Inl err)
    with Some show ?thesis by (simp add: effect_def r2_post_reset_unfold)
  next
    case (Inr db)
    from reset_doc_effect [OF Some Inr] have "replaced sc ev (users st) db" .
    with Some Inr show ?thesis by (simp add: effect_def r2_post_reset_unfold)
  qed
qed

lemma r1_reset_effect:
  "effect sc ev (users st) (users (snd (r1_post_reset_password sc ev t p st)))"
proof (cases "findOne_token t (now ev) (users st)")
  case None
  then show ?thesis by (simp add: effect_def r1_post_reset_unfold)
next
  case (Some u)
  let ?d = "u\<lparr>password := bcrypt_hash (Plain (str_of p)) (12, route_salt ev),
               resetPasswordToken := None, resetPasswordExpire := None\<rparr>"
  show ?thesis
  proof (cases "save sc (hook_salt ev) (Some u) ?d (users st)")
    case (Inl err)
    with Some show ?thesis by (simp add: effect_def r1_post_reset_unfold)
  next
    case (Inr db)
    from reset_doc_effect [OF Some Inr] have "replaced sc ev (users st) db" .
    with Some Inr show ?thesis by (simp add: effect_def r1_post_reset_unfold)
  qed
qed

lemma r2_route_effect: "effect sc ev (users st) (users (snd (r2_route sc ev req st)))"
proof (cases req)
  case (PostRegister n e p)
  then show ?thesis by (simp add: register_effect)
next
  case (PostLogin e p)
  then show ?thesis by (simp add: login_state effect_def)
next
  case (PostForgotPassword e)
  then show ?thesis by (simp add: r2_forgot_effect)
next
  case (GetResetPassword t)
  then show ?thesis by (simp add: r2_get_state effect_def)
next
  case (PostResetPassword t p)
  then show ?thesis by (simp add: r2_reset_effect)
qed

lemma r1_route_effect: "effect sc ev (users st) (users (snd (r1_route sc ev rq st)))"
proof (cases rq)
  case (ForgotPassword e)
  then show ?thesis by (simp add: r1_forgot_effect)
next
  case (ValidateToken t)
  then show ?thesis by (simp add: r1_get_state effect_def)
next
  case (ResetPassword t p)
  then show ?thesis by (simp add: r1_reset_effect)
qed

lemma token_unique_iff:
  "token_unique t db =
     (\<forall>x \<in> set db. \<forall>y \<in> set db.
        resetPasswordToken x = Some t \<and> resetPasswordToken y = Some t \<longrightarrow> uid x = uid y)"
  by (simp add: token_unique_def list_all_iff)

lemma effect_valid:
  assumes "effect sc ev db db'" and "list_all (valid_doc sc) db"
  shows "list_all (valid_doc sc) db'"
  using assms unfolding effect_def appended_def replaced_def
  by (auto simp: list_all_replace)

lemma effect_trimmed:
  assumes "effect sc ev db db'" and "list_all (\<lambda>u. email u = trim (email u)) db"
  shows "list_all (\<lambda>u. email u = trim (email u)) db'"
proof -
  from assms(1) consider "db' = db" | "appended sc db db'" | "replaced sc ev db db'"
    unfolding effect_def by blast
  then show ?thesis
  proof cases
    case 1
    with assms(2) show ?thesis by simp
  next
    case 2
    with assms(2) show ?thesis unfolding appended_def by auto
  next
    case 3
    then obtain u d where u: "u \<in> set db"
      and db': "db' = map (\<lambda>x. if uid x = uid u then d else x) db"
      and e: "email d = email u"
      unfolding replaced_def by blast
    from u assms(2) have "email u = trim (email u)" by (simp add: list_all_iff)
    with e have "email d = trim (email d)" by simp
    with assms(2) show ?thesis unfolding db' by (rule list_all_replace)
  qed
qed

lemma appended_token_unique:
  assumes "token_unique t db" and "resetPasswordToken d = None"
  shows "token_unique t (db @ [d])"
proof -
  have "uid x = uid y"
    if "x \<in> set (db @ [d])" "y \<in> set (db @ [d])"
      "resetPasswordToken x = Some t" "resetPasswordToken y = Some t" for x y
  proof -
    from that(1,3) assms(2) have x: "x \<in> set db" by auto
    from that(2,4) assms(2) have y: "y \<in> set db" by auto
    from assms(1) x y that(3,4) show ?thesis unfolding token_unique_iff by blast
  qed
  then show ?thesis unfolding token_unique_iff by blast
qed

lemma replaced_token_unique:
  assumes uniq: "token_unique t db"
    and fresh: "\<not> list_ex (\<lambda>u. resetPasswordToken u = Some tok) db"
    and ud: "uid d = uid u"
    and tok: "resetPasswordToken d = None \<or> resetPasswordToken d = Some tok"
  shows "token_unique t (map (\<lambda>x. if uid x = uid u then d else x) db)"
proof -
  let ?f = "\<lambda>x. if uid x = uid u then d else x"
  have old: "resetPasswordToken y \<noteq> Some t"
    if "resetPasswordToken d = Some t" and "y \<in> set db" for y
  proof -
    from that(1) tok have "t = tok" by auto
    with fresh that(2) show ?thesis by (simp add: list_ex_iff)
  qed
  have step: "uid (?f x) = uid (?f y)"
    if x: "x \<in> set db" and y: "y \<in> set db"
      and hx: "resetPasswordToken (?f x) = Some t" and hy: "resetPasswordToken (?f y) = Some t"
    for x y
  proof (cases "uid x = uid u")
    case True
    note xu = True
    show ?thesis
    proof (cases "uid y = uid u")
      case True
      with xu show ?thesis by simp
    next
      case False
      with hy have "resetPasswordToken y = Some t" by simp
      moreover from xu hx have "resetPasswordToken d = Some t" by simp
      ultimately show ?thesis using old [OF _ y] by simp
    qed
  next
    case False
    note xu = False
    show ?thesis
    proof (cases "uid y = uid u")
      case True
      with hy have "resetPasswordToken d = Some t" by simp
      moreover from xu hx have "resetPasswordToken x = Some t" by simp
      ultimately show ?thesis using old [OF _ x] by simp
    next
      case False
      with xu hx hy have "resetPasswordToken x = Some t" "resetPasswordToken y = Some t"
        by simp_all
      with uniq x y have "uid x = uid y" unfolding token_unique_iff by blast
      with xu False show ?thesis by simp
    qed
  qed
  show ?thesis
    unfolding token_unique_iff
  proof (intro ballI impI)
    fix a b
    assume a: "a \<in> set (map ?f db)" and b: "b \<in> set (map ?f db)"
      and h: "resetPasswordToken a = Some t \<and> resetPasswordToken b = Some t"
    from a obtain x where x: "x \<in> set db" "a = ?f x" by (auto simp only: set_map image_iff)
    from b obtain y where y: "y \<in> set db" "b = ?f y" by (auto simp only: set_map image_iff)
    from h x(2) y(2) have "resetPasswordToken (?f x) = Some t" "resetPasswordToken (?f y) = Some t"
      by simp_all
    from step [OF x(1) y(1) this] x(2) y(2) show "uid a = uid b" by simp
  qed
qed

lemma effect_token_unique:
  assumes "effect sc ev db db'"
    and fresh: "\<not> list_ex (\<lambda>u. resetPasswordToken u = Some (random_token ev)) db"
    and uniq: "token_unique t db"
  shows "token_unique t db'"
proof -
  from assms(1) consider "db' = db" | "appended sc db db'" | "replaced sc ev db db'"
    unfolding effect_def by blast
  then show ?thesis
  proof cases
    case 1
    with uniq show ?thesis by simp
  next
    case 2
    then obtain d where "db' = db @ [d]" and "resetPasswordToken d = None"
      unfolding appended_def by blast
    with uniq show ?thesis by (simp add: appended_token_unique)
  next
    case 3
    then obtain u d where r: "u \<in> set db \<and> db' = map (\<lambda>x. if uid x = uid u then d else x) db
          \<and> valid_doc sc d \<and> email d = email u \<and> uid d = uid u
          \<and> (resetPasswordToken d = None \<and> resetPasswordExpire d = None
              \<or> resetPasswordToken d = Some (random_token ev)
                \<and> resetPasswordExpire d = Some (now ev + 3600000))"
      unfolding replaced_def by blast
    then have db': "db' = map (\<lambda>x. if uid x = uid u then d else x) db"
      and ud: "uid d = uid u" by simp_all
    from r have tok: "resetPasswordToken d = None \<or> resetPasswordToken d = Some (random_token ev)"
      by auto
    show ?thesis unfolding db' using uniq fresh ud tok by (rule replaced_token_unique)
  qed
qed

lemma effect_paired:
  assumes "effect sc ev db db'" and "list_all paired db"
  shows "list_all paired db'"
proof -
  from assms(1) consider "db' = db" | "appended sc db db'" | "replaced sc ev db db'"
    unfolding effect_def by blast
  then show ?thesis
  proof cases
    case 1
    with assms(2) show ?thesis by simp
  next
    case 2
    then obtain d where "db' = db @ [d]"
      and "resetPasswordToken d = None" "resetPasswordExpire d = None"
      unfolding appended_def by blast
    with assms(2) show ?thesis by (simp add: paired_def)
  next
    case 3
    then obtain u d where r: "u \<in> set db \<and> db' = map (\<lambda>x. if uid x = uid u then d else x) db
          \<and> valid_doc sc d \<and> email d = email u \<and> uid d = uid u
          \<and> (resetPasswordToken d = None \<and> resetPasswordExpire d = None
              \<or> resetPasswordToken d = Some (random_token ev)
                \<and> resetPasswordExpire d = Some (now ev + 3600000))"
      unfolding replaced_def by blast
    then have db': "db' = map (\<lambda>x. if uid x = uid u then d else x) db" by simp
    from r have "paired d" by (auto simp: paired_def)
    with assms(2) show ?thesis unfolding db' by (rule list_all_replace)
  qed
qed

lemma effect_invariant:
  assumes "effect sc ev db db'"
    and "\<not> list_ex (\<lambda>u. resetPasswordToken u = Some (random_token ev)) db"
    and "list_all (valid_doc sc) db \<and> list_all (\<lambda>u. email u = trim (email u)) db
         \<and> list_all paired db \<and> token_unique t db"
  shows "list_all (valid_doc sc) db' \<and> list_all (\<lambda>u. email u = trim (email u)) db'
         \<and> list_all paired db' \<and> token_unique t db'"
  using assms effect_valid effect_trimmed effect_paired effect_token_unique by blast

lemma reachable_invariant:
  assumes "reachable sc st"
  shows "list_all (valid_doc sc) (users st)
       \<and> list_all (\<lambda>u. email u = trim (email u)) (users st)
       \<and> list_all paired (users st)
       \<and> token_unique t (users st)"
  using assms
proof (induction rule: reachable.induct)
  case start
  show ?case by (simp add: token_unique_def)
next
  case (serve_r2 st ev req)
  from r2_route_effect serve_r2.hyps(2) [unfolded fresh_token_def] serve_r2.IH
  show ?case by (rule effect_invariant)
next
  case (serve_r1 st ev rq)
  from r1_route_effect serve_r1.hyps(2) [unfolded fresh_token_def] serve_r1.IH
  show ?case by (rule effect_invariant)
qed

section \<open>What the routes with register and login do right\<close>

text \<open>
  Where the routes of the reset flow alone fail, the other version conforms: its reset
  stores a single digest, so that afterwards a login succeeds with the new password
  and (the hash being ideal) with no other; register and login look up the
  normalized email; under a schema that trims \<open>email\<close> the lookup of forgot-password
  is normalized too; and forgot-password answers 200 with success true whether or not
  the address is known, unless saving or sending fails.
\<close>

lemma r2_reset_success_nonempty:
  assumes "fst (r2_post_reset_password sc ev t (Str pw) st)
           = Inr (reply 200 True ''Password has been reset successfully'')"
  shows "pw \<noteq> []"
  using assms password_refused_empty
  by (cases "pw = []") (simp_all add: r2_post_reset_unfold reset_ok_neq [symmetric])

lemma r2_reset_then_login:
  assumes ok: "r2_post_reset_password sc ev t (Str pw) st
               = (Inr (reply 200 True ''Password has been reset successfully''), st')"
    and u: "findOne_token t (now ev) (users st) = Some u"
    and modified: "password u \<noteq> Plain pw"
    and v: "findOne_email sc' (normalized e) (users st') = Some v"
    and same: "uid v = uid u" and e: "e \<noteq> []"
  shows "password v = bcrypt_hash (Plain pw) (salt_rounds sc, hook_salt ev)"
    and "(fst (r2_post_login sc' (Str e) (Str c) st')
          = Inr \<lparr>status = 200, success = True, message = ''Login successful'',
                 user = Some (uid v, email v)\<rparr>) = (c = pw)"
proof -
  let ?d = "pre_save sc (hook_salt ev) (Some u)
              (u\<lparr>password := Plain pw, resetPasswordToken := None, resetPasswordExpire := None\<rparr>)"
  from ok have f: "fst (r2_post_reset_password sc ev t (Str pw) st)
           = Inr (reply 200 True ''Password has been reset successfully'')"
    and s: "snd (r2_post_reset_password sc ev t (Str pw) st) = st'" by simp_all
  from r2_reset_success [OF f] obtain w where
    w: "findOne_token t (now ev) (users st) = Some w"
    and dbw: "users (snd (r2_post_reset_password sc ev t (Str pw) st))
       = map (\<lambda>x. if uid x = uid w
                  then pre_save sc (hook_salt ev) (Some w)
                         (w\<lparr>password := Plain (str_of (Str pw)), resetPasswordToken := None,
                            resetPasswordExpire := None\<rparr>)
                  else x) (users st)"
    by blast
  from w u have "w = u" by simp
  with dbw s have db: "users st' = map (\<lambda>x. if uid x = uid u then ?d else x) (users st)"
    by (simp only: str_of.simps)
  from findOne_email_mem [OF v] have "v \<in> set (users st')" .
  then have "v \<in> set (map (\<lambda>x. if uid x = uid u then ?d else x) (users st))"
    unfolding db .
  from replaced_doc [OF this same] have vd: "v = ?d" .
  from modified have "password ?d = bcrypt_hash (Plain pw) (salt_rounds sc, hook_salt ev)"
    by (simp add: pre_save_def isModified_password_def)
  with vd show p: "password v = bcrypt_hash (Plain pw) (salt_rounds sc, hook_salt ev)" by simp
  from r2_reset_success_nonempty [OF f] have pw: "pw \<noteq> []" .
  show "(fst (r2_post_login sc' (Str e) (Str c) st')
          = Inr \<lparr>status = 200, success = True, message = ''Login successful'',
                 user = Some (uid v, email v)\<rparr>) = (c = pw)"
  proof (cases "c = []")
    case True
    with pw e show ?thesis by (simp add: r2_post_login_def reply_def)
  next
    case False
    have "comparePassword v (Str c) = Inr (c = pw)"
      by (auto simp: comparePassword_def p bcrypt_hash_def)
    with False e v show ?thesis
      by (simp add: r2_post_login_def normalized_def Let_def reply_def)
  qed
qed

lemma login_normalized:
  assumes "e \<noteq> []" and "e' \<noteq> []" and "normalized e = normalized e'"
  shows "r2_post_login sc (Str e) p st = r2_post_login sc (Str e') p st"
  using assms by (simp add: r2_post_login_def normalized_def Let_def)

lemma register_normalized:
  assumes "normalized e = normalized e'"
  shows "r2_post_register sc ev n (Str e) p st = r2_post_register sc ev n (Str e') p st"
proof -
  from assms have eq: "toLowerCase (trim (str_of (Str e))) = toLowerCase (trim (str_of (Str e')))"
    by (simp add: normalized_def)
  show ?thesis unfolding r2_post_register_unfold eq by simp
qed

lemma forgot_trimming_schema:
  assumes "trim_email sc"
  shows "findOne_email sc (toLowerCase e) db = findOne_email sc (normalized e) db"
  using assms
  by (simp add: findOne_email_def cast_email_def normalized_def trim_toLowerCase
      toLowerCase_idem trim_idem)

lemma r2_forgot_uniform:
  assumes "e \<noteq> []" and "fst (r2_post_forgot_password sc ev (Str e) st) = Inr r"
  shows "status r = 200 \<and> success r = True"
  using assms unfolding r2_post_forgot_password_def
  by (simp add: Let_def reply_def split: option.splits sum.splits) auto

lemma reachable_single_use:
  assumes "reachable sc0 st"
    and "r2_post_reset_password sc ev t p st
         = (Inr (reply 200 True ''Password has been reset successfully''), st')"
  shows "r2_get_reset_password ev' t st' = (Inr invalid_or_expired, st')"
proof -
  from reachable_invariant [OF assms(1)] have "token_unique t (users st)" by simp
  from r2_reset_consumes(2) [OF this assms(2)] show ?thesis by (simp add: r2_get_reset)
qed


text \<open>
  A token that is not live is refused in the same way whatever it is, with any
  password; and a password that is no string is refused like a string that violates
  the policy.
\<close>

lemma r2_post_reset_dead_eq:
  assumes "\<not> token_live t (now ev) (users st)" and "\<not> token_live t' (now ev) (users st)"
  shows "r2_post_reset_password sc ev t p st = r2_post_reset_password sc ev t' p st"
  using assms findOne_token_None [of t "now ev" "users st"]
    findOne_token_None [of t' "now ev" "users st"]
  by (simp add: r2_post_reset_unfold)

lemma r1_post_reset_dead_eq:
  assumes "\<not> token_live t (now ev) (users st)" and "\<not> token_live t' (now ev) (users st)"
    and "t \<noteq> []" and "t' \<noteq> []"
  shows "r1_post_reset_password sc ev t p st = r1_post_reset_password sc ev t' p st"
  using assms findOne_token_None [of t "now ev" "users st"]
    findOne_token_None [of t' "now ev" "users st"]
  by (simp add: r1_post_reset_unfold)

lemma nonstring_refused: "\<not> is_string v \<Longrightarrow> password_refused v"
  by (simp add: password_refused_def)

lemma nonstring_policy_error:
  assumes "\<not> is_string v"
  shows "r2_post_reset_password sc ev t v st = (Inr policy_error, st)"
    and "t \<noteq> [] \<Longrightarrow> r1_post_reset_password sc ev t v st = (Inr policy_error, st)"
    and "2 \<le> length (trim n) \<Longrightarrow>
         r2_post_register sc ev (Str n) e v st = (Inr policy_error, st)"
proof -
  from assms have r: "password_refused v" by (rule nonstring_refused)
  then show "r2_post_reset_password sc ev t v st = (Inr policy_error, st)"
    by (simp add: r2_post_reset_unfold)
  from r show "t \<noteq> [] \<Longrightarrow> r1_post_reset_password sc ev t v st = (Inr policy_error, st)"
    by (simp add: r1_post_reset_unfold)
  from r show "2 \<le> length (trim n) \<Longrightarrow>
         r2_post_register sc ev (Str n) e v st = (Inr policy_error, st)"
    by (cases "n = []") (simp_all add: r2_post_register_unfold trim_def)
qed

text \<open>
  With a string as password, a login is answered in the same way when no user has the
  normalized email (state \<open>st1\<close>) and when the user exists but the password does not
  verify (state \<open>st2\<close>): status 400, success false, "Invalid email or password".
\<close>

lemma login_failures_identical:
  assumes "e \<noteq> []" and "truthy p"
    and "findOne_email sc (normalized e) (users st1) = None"
    and "findOne_email sc (normalized e) (users st2) = Some u"
    and "comparePassword u p = Inr False"
  shows "fst (r2_post_login sc (Str e) p st1) = fst (r2_post_login sc (Str e) p st2)
         \<and> r2_post_login sc (Str e) p st1 = (Inr (reply 400 False ''Invalid email or password''), st1)
         \<and> r2_post_login sc (Str e) p st2 = (Inr (reply 400 False ''Invalid email or password''), st2)"
  using login_unknown_email [OF assms(1,2,3)] login_wrong_password [OF assms(1,2,4,5)]
  by (simp add: invalid_credentials_def)

lemma login_failures_identical_example:
  "findOne_email User_js (normalized ''jane@test.com'') (users no_users) = None
   \<and> findOne_email User_js (normalized ''jane@test.com'') (users jane_registered) = Some jane
   \<and> comparePassword jane (Str ''Wrong123!'') = Inr False
   \<and> r2_post_login User_js (Str ''jane@test.com'') (Str ''Wrong123!'') no_users
       = (Inr (reply 400 False ''Invalid email or password''), no_users)
   \<and> r2_post_login User_js (Str ''jane@test.com'') (Str ''Wrong123!'') jane_registered
       = (Inr (reply 400 False ''Invalid email or password''), jane_registered)"
proof -
  have a: "''jane@test.com'' \<noteq> []" and b: "truthy (Str ''Wrong123!'')" by simp_all
  have c: "findOne_email User_js (normalized ''jane@test.com'') (users no_users) = None"
    by code_simp
  have d: "findOne_email User_js (normalized ''jane@test.com'') (users jane_registered) = Some jane"
    by code_simp
  have f: "comparePassword jane (Str ''Wrong123!'') = Inr False" by code_simp
  show ?thesis
    using c d f login_failures_identical [OF a b c d f] by simp
qed

text \<open>The states of the concrete run are reachable.\<close>

lemma jane_asked_reachable: "reachable User_js jane_asked"
proof -
  have r0: "reachable User_js no_users"
    unfolding no_users_def by (rule reachable.start)
  have f0: "fresh_token jane_env no_users" by code_simp
  have s0: "snd (r2_route User_js jane_env
                  (PostRegister (Str ''Jane Doe'') (Str ''Jane@Test.com'') (Str ''Str0ng!Pass''))
                  no_users) = jane_registered"
    by code_simp
  from reachable.serve_r2 [OF r0 f0,
      of "PostRegister (Str ''Jane Doe'') (Str ''Jane@Test.com'') (Str ''Str0ng!Pass'')"]
  have r1: "reachable User_js jane_registered" by (simp only: s0)
  have f1: "fresh_token jane_env jane_registered" by code_simp
  have s1: "snd (r2_route User_js jane_env (PostForgotPassword (Str ''jane@test.com''))
                  jane_registered) = jane_asked"
    by code_simp
  from reachable.serve_r2 [OF r1 f1, of "PostForgotPassword (Str ''jane@test.com'')"]
  show ?thesis by (simp only: s1)
qed

section \<open>The properties of the specification\<close>

text \<open>
  C1. In the version of the reset route that hashes the password itself, the pre-save
  hook hashes the digest again: the stored value is the digest of a digest, it does not
  verify the new password, and a login with the new password is answered "Invalid
  email or password". (The loaded password differs from the fresh digest, so the hook
  sees the path as modified.)
\<close>

theorem r1_reset_hashes_twice:
  assumes ok: "r1_post_reset_password sc ev t (Str pw) st
               = (Inr (reply 200 True ''Password has been reset successfully''), st')"
    and u: "findOne_token t (now ev) (users st) = Some u"
    and fresh: "password u \<noteq> bcrypt_hash (Plain pw) (12, route_salt ev)"
    and v: "findOne_email sc' (normalized e) (users st') = Some v"
    and same: "uid v = uid u" and e: "e \<noteq> []"
  shows "password v = bcrypt_hash (bcrypt_hash (Plain pw) (12, route_salt ev))
                        (salt_rounds sc, hook_salt ev)
       \<and> comparePassword v (Str pw) = Inr False
       \<and> r2_post_login sc' (Str e) (Str pw) st' = (Inr invalid_credentials, st')"
proof -
  let ?h = "bcrypt_hash (Plain pw) (12, route_salt ev)"
  let ?d = "pre_save sc (hook_salt ev) (Some u)
              (u\<lparr>password := ?h, resetPasswordToken := None, resetPasswordExpire := None\<rparr>)"
  from ok have f: "fst (r1_post_reset_password sc ev t (Str pw) st)
           = Inr (reply 200 True ''Password has been reset successfully'')"
    and s: "snd (r1_post_reset_password sc ev t (Str pw) st) = st'" by simp_all
  from r1_reset_success [OF f] obtain w where
    w: "findOne_token t (now ev) (users st) = Some w"
    and dbw: "users (snd (r1_post_reset_password sc ev t (Str pw) st))
       = map (\<lambda>x. if uid x = uid w
                  then pre_save sc (hook_salt ev) (Some w)
                         (w\<lparr>password := bcrypt_hash (Plain (str_of (Str pw))) (12, route_salt ev),
                            resetPasswordToken := None, resetPasswordExpire := None\<rparr>)
                  else x) (users st)"
    by blast
  from w u have "w = u" by simp
  with dbw s have db: "users st' = map (\<lambda>x. if uid x = uid u then ?d else x) (users st)"
    by (simp only: str_of.simps)
  from findOne_email_mem [OF v] have "v \<in> set (users st')" .
  then have "v \<in> set (map (\<lambda>x. if uid x = uid u then ?d else x) (users st))"
    unfolding db .
  from replaced_doc [OF this same] have vd: "v = ?d" .
  from fresh have pd: "password ?d = bcrypt_hash ?h (salt_rounds sc, hook_salt ev)"
    by (simp add: pre_save_def isModified_password_def)
  with vd have p: "password v = bcrypt_hash ?h (salt_rounds sc, hook_salt ev)" by simp
  then have c: "comparePassword v (Str pw) = Inr False"
    by (simp add: comparePassword_def bcrypt_hash_def)
  from r1_reset_success_nonempty [OF f] have "truthy (Str pw)" by simp
  from login_wrong_password [OF e this v c] p c show ?thesis by simp
qed

theorem r1_reset_hashes_twice_witness:
  "r1_post_reset_password User_js later_env (random_token jane_env) (Str ''NewStr0ng!1'')
       jane_asked
     = (Inr (reply 200 True ''Password has been reset successfully''), jane_hashed_twice)
   \<and> r2_post_login User_js (Str ''jane@test.com'') (Str ''NewStr0ng!1'') jane_hashed_twice
       = (Inr (reply 400 False ''Invalid email or password''), jane_hashed_twice)
   \<and> r2_post_reset_password User_js later_env (random_token jane_env) (Str ''NewStr0ng!1'')
       jane_asked
     = (Inr (reply 200 True ''Password has been reset successfully''), jane_reset)
   \<and> fst (r2_post_login User_js (Str ''jane@test.com'') (Str ''NewStr0ng!1'') jane_reset)
       = Inr \<lparr>status = 200, success = True, message = ''Login successful'',
              user = Some (1, ''jane@test.com'')\<rparr>"
proof -
  let ?u = "jane\<lparr>resetPasswordToken := Some ''0123456789abcdef0123456789abcdef01234567'',
                  resetPasswordExpire := Some 1700003600000\<rparr>"
  let ?v = "jane\<lparr>password := Bcrypt 10 3 (Bcrypt 12 4 (Plain ''NewStr0ng!1''))\<rparr>"
  have a: "r1_post_reset_password User_js later_env (random_token jane_env) (Str ''NewStr0ng!1'')
       jane_asked
     = (Inr (reply 200 True ''Password has been reset successfully''), jane_hashed_twice)"
    by code_simp
  have b: "findOne_token (random_token jane_env) (now later_env) (users jane_asked) = Some ?u"
    by code_simp
  have c: "password ?u \<noteq> bcrypt_hash (Plain ''NewStr0ng!1'') (12, route_salt later_env)"
    by code_simp
  have d: "findOne_email User_js (normalized ''jane@test.com'') (users jane_hashed_twice) = Some ?v"
    by code_simp
  have f: "uid ?v = uid ?u" by code_simp
  have g: "''jane@test.com'' \<noteq> []" by simp
  have h: "r2_post_reset_password User_js later_env (random_token jane_env) (Str ''NewStr0ng!1'')
       jane_asked
     = (Inr (reply 200 True ''Password has been reset successfully''), jane_reset)"
    by code_simp
  have i: "fst (r2_post_login User_js (Str ''jane@test.com'') (Str ''NewStr0ng!1'') jane_reset)
       = Inr \<lparr>status = 200, success = True, message = ''Login successful'',
              user = Some (1, ''jane@test.com'')\<rparr>"
    by code_simp
  from r1_reset_hashes_twice [OF a b c d f g] a h i show ?thesis
    by (simp add: invalid_credentials_def)
qed

text \<open>
  C2. For a non-empty email string that no stored user has, the first version of
  forgot-password answers 404 with success false, where the second answers 200 with
  success true; for a known address both answer 200 with success true.
\<close>

theorem r1_forgot_password_reveals_unknown:
  assumes "e \<noteq> []" and "findOne_email sc (toLowerCase e) (users st) = None"
  shows "r1_post_forgot_password sc ev (Str e) st
         = (Inr (reply 404 False ''No account found with that email''), st)
       \<and> r2_post_forgot_password sc ev (Str e) st
         = (Inr (reply 200 True
              ''If an account with that email exists, a reset link will be sent''), st)"
  using assms by (simp add: r1_forgot_unknown r2_forgot_unknown)

theorem r1_forgot_password_reveals_unknown_witness:
  "findOne_email User_js (toLowerCase ''nobody@test.com'') (users jane_registered) = None
   \<and> r1_post_forgot_password User_js jane_env (Str ''nobody@test.com'') jane_registered
       = (Inr (reply 404 False ''No account found with that email''), jane_registered)
   \<and> r1_post_forgot_password User_js jane_env (Str ''jane@test.com'') jane_registered
       = (Inr (reply 200 True ''Password reset email sent if account exists''), jane_asked)
   \<and> status (reply 404 False ''No account found with that email'')
       \<noteq> status (reply 200 True ''Password reset email sent if account exists'')
   \<and> success (reply 404 False ''No account found with that email'')
       \<noteq> success (reply 200 True ''Password reset email sent if account exists'')"
proof -
  have a: "''nobody@test.com'' \<noteq> []" by simp
  have b: "findOne_email User_js (toLowerCase ''nobody@test.com'') (users jane_registered) = None"
    by code_simp
  have c: "r1_post_forgot_password User_js jane_env (Str ''jane@test.com'') jane_registered
       = (Inr (reply 200 True ''Password reset email sent if account exists''), jane_asked)"
    by code_simp
  from r1_forgot_password_reveals_unknown [OF a b, of jane_env] b c show ?thesis
    by (simp add: reply_def)
qed

text \<open>
  C3. Validation answers "Token is valid" exactly when the token is live (some stored
  user holds exactly this token and an expiry strictly after the current time) and
  "Invalid or expired token" otherwise, without changing the state. A reset with a
  password that satisfies the policy, on a collection whose documents pass the schema's
  validation, succeeds exactly when the token is live and otherwise gives the same
  "Invalid or expired token". In the routes that inspect the parameter the token is
  non-empty, as every token the router passes is. A successful forgot-password stores
  the expiry "now plus 3600000 ms": when no user held the new token before, it is live
  at exactly the times before that expiry. In every reachable state the stored
  documents pass the schema's validation. With any password, string or not, two
  tokens that are not live get the same outcome of a reset (the policy error when the
  password is refused, "Invalid or expired token" otherwise).
\<close>

theorem reset_token_accepted_iff_live:
  "r2_get_reset_password ev t st
     = (Inr (if token_live t (now ev) (users st) then reply 200 True ''Token is valid''
             else invalid_or_expired), st)
   \<and> (t \<noteq> [] \<longrightarrow>
        r1_get_reset_password ev t st
        = (Inr (if token_live t (now ev) (users st) then reply 200 True ''Token is valid''
                else invalid_or_expired), st))
   \<and> (policy_spec pw \<and> list_all (valid_doc sc) (users st) \<longrightarrow>
        fst (r2_post_reset_password sc ev t (Str pw) st)
        = Inr (if token_live t (now ev) (users st)
               then reply 200 True ''Password has been reset successfully''
               else invalid_or_expired))
   \<and> (policy_spec pw \<and> list_all (valid_doc sc) (users st) \<and> t \<noteq> [] \<longrightarrow>
        fst (r1_post_reset_password sc ev t (Str pw) st)
        = Inr (if token_live t (now ev) (users st)
               then reply 200 True ''Password has been reset successfully''
               else invalid_or_expired))
   \<and> (fst (r2_post_forgot_password sc ev (Str e) st)
          = Inr (reply 200 True ''Password reset email sent if account exists'')
        \<and> \<not> list_ex (\<lambda>x. resetPasswordToken x = Some (random_token ev)) (users st) \<longrightarrow>
        (\<forall>tm. token_live (random_token ev) tm
                (users (snd (r2_post_forgot_password sc ev (Str e) st)))
              = (tm < now ev + 3600000)))
   \<and> (fst (r1_post_forgot_password sc ev (Str e) st)
          = Inr (reply 200 True ''Password reset email sent if account exists'')
        \<and> \<not> list_ex (\<lambda>x. resetPasswordToken x = Some (random_token ev)) (users st) \<longrightarrow>
        (\<forall>tm. token_live (random_token ev) tm
                (users (snd (r1_post_forgot_password sc ev (Str e) st)))
              = (tm < now ev + 3600000)))
   \<and> (reachable sc st \<longrightarrow> list_all (valid_doc sc) (users st))
   \<and> (\<not> token_live t (now ev) (users st) \<and> \<not> token_live t' (now ev) (users st) \<longrightarrow>
        r2_post_reset_password sc ev t p st = r2_post_reset_password sc ev t' p st
        \<and> (t \<noteq> [] \<and> t' \<noteq> [] \<longrightarrow>
             r1_post_reset_password sc ev t p st = r1_post_reset_password sc ev t' p st))"
proof -
  have "reachable sc st \<longrightarrow> list_all (valid_doc sc) (users st)"
    using reachable_invariant by blast
  moreover have "\<not> token_live t (now ev) (users st) \<and> \<not> token_live t' (now ev) (users st) \<longrightarrow>
        r2_post_reset_password sc ev t p st = r2_post_reset_password sc ev t' p st
        \<and> (t \<noteq> [] \<and> t' \<noteq> [] \<longrightarrow>
             r1_post_reset_password sc ev t p st = r1_post_reset_password sc ev t' p st)"
    using r2_post_reset_dead_eq r1_post_reset_dead_eq by blast
  moreover note r2_get_reset [of ev t st] r1_get_reset [of t ev st]
    r2_post_reset_token [of pw sc st ev t] r1_post_reset_token [of pw sc st t ev]
    r2_issue_expiry [of sc ev e st] r1_issue_expiry [of sc ev e st]
  ultimately show ?thesis by blast
qed

theorem reset_token_accepted_iff_live_witness:
  "r2_post_forgot_password User_js jane_env (Str ''jane@test.com'') jane_registered
     = (Inr (reply 200 True ''Password reset email sent if account exists''), jane_asked)
   \<and> \<not> list_ex (\<lambda>x. resetPasswordToken x = Some (random_token jane_env)) (users jane_registered)
   \<and> token_live (random_token jane_env) (now jane_env + 3599999) (users jane_asked)
   \<and> \<not> token_live (random_token jane_env) (now jane_env + 3600000) (users jane_asked)
   \<and> policy_spec ''NewStr0ng!1'' \<and> reachable User_js jane_asked
   \<and> list_all (valid_doc User_js) (users jane_asked)
   \<and> random_token jane_env \<noteq> []
   \<and> r2_get_reset_password later_env (random_token jane_env) jane_asked
       = (Inr (reply 200 True ''Token is valid''), jane_asked)
   \<and> r1_get_reset_password later_env ''0123'' jane_asked = (Inr invalid_or_expired, jane_asked)
   \<and> fst (r2_post_reset_password User_js later_env (random_token jane_env) (Str ''NewStr0ng!1'')
            jane_asked) = Inr (reply 200 True ''Password has been reset successfully'')
   \<and> fst (r1_post_reset_password User_js later_env ''0123'' (Str ''NewStr0ng!1'') jane_asked)
       = Inr invalid_or_expired"
proof -
  have a: "r2_post_forgot_password User_js jane_env (Str ''jane@test.com'') jane_registered
     = (Inr (reply 200 True ''Password reset email sent if account exists''), jane_asked)"
    by code_simp
  have b: "\<not> list_ex (\<lambda>x. resetPasswordToken x = Some (random_token jane_env))
             (users jane_registered)"
    by code_simp
  have c: "policy_spec ''NewStr0ng!1''"
    and f: "random_token jane_env \<noteq> []" and g: "''0123'' \<noteq> []"
    by code_simp+
  have live: "token_live (random_token jane_env) (now later_env) (users jane_asked)"
    and dead: "\<not> token_live ''0123'' (now later_env) (users jane_asked)"
    by code_simp+
  note r = jane_asked_reachable
  note live_th = reset_token_accepted_iff_live [where sc = User_js and pw = "''NewStr0ng!1''"
      and st = jane_asked and ev = later_env and t = "random_token jane_env"]
  note dead_th = reset_token_accepted_iff_live [where sc = User_js and pw = "''NewStr0ng!1''"
      and st = jane_asked and ev = later_env and t = "''0123''"]
  note validate_r2 = live_th [THEN conjunct1]
  note reset_r2 = live_th [THEN conjunct2, THEN conjunct2, THEN conjunct1]
  note validate_r1 = dead_th [THEN conjunct2, THEN conjunct1]
  note reset_r1 = dead_th [THEN conjunct2, THEN conjunct2, THEN conjunct2, THEN conjunct1]
  note valid = live_th [THEN conjunct2, THEN conjunct2, THEN conjunct2, THEN conjunct2,
      THEN conjunct2, THEN conjunct2, THEN conjunct1]
  note issue = reset_token_accepted_iff_live [where sc = User_js and ev = jane_env
      and e = "''jane@test.com''" and st = jane_registered,
      THEN conjunct2, THEN conjunct2, THEN conjunct2, THEN conjunct2, THEN conjunct1]
  from valid r have d: "list_all (valid_doc User_js) (users jane_asked)" by simp
  from issue a b have
    "\<forall>tm. token_live (random_token jane_env) tm (users jane_asked) = (tm < now jane_env + 3600000)"
    by simp
  then have "token_live (random_token jane_env) (now jane_env + 3599999) (users jane_asked)"
    and "\<not> token_live (random_token jane_env) (now jane_env + 3600000) (users jane_asked)"
    by simp_all
  moreover from validate_r2 live
  have "r2_get_reset_password later_env (random_token jane_env) jane_asked
       = (Inr (reply 200 True ''Token is valid''), jane_asked)"
    by simp
  moreover from reset_r2 live c d
  have "fst (r2_post_reset_password User_js later_env (random_token jane_env) (Str ''NewStr0ng!1'')
            jane_asked) = Inr (reply 200 True ''Password has been reset successfully'')"
    by simp
  moreover from validate_r1 dead g
  have "r1_get_reset_password later_env ''0123'' jane_asked = (Inr invalid_or_expired, jane_asked)"
    by simp
  moreover from reset_r1 dead c d g
  have "fst (r1_post_reset_password User_js later_env ''0123'' (Str ''NewStr0ng!1'') jane_asked)
       = Inr invalid_or_expired"
    by simp
  ultimately show ?thesis using a b c d f r by blast
qed

text \<open>
  C4. In every reachable state at most one user holds a given token. When at most one
  user holds the token, a successful reset writes one document for
  the user found by the token, with the new password and with token and expiry both
  absent, and from then on the same token is refused at any time, with any password
  and under any schema: validation answers "Invalid or expired token", a further reset
  answers that or the policy error, and neither changes the state. This holds for
  both versions of the routes.
\<close>

theorem reset_token_single_use:
  "(reachable sc st \<longrightarrow> token_unique t (users st))
   \<and> (token_unique t (users st)
     \<and> r2_post_reset_password sc ev t p st
         = (Inr (reply 200 True ''Password has been reset successfully''), st') \<longrightarrow>
      (\<exists>u d. findOne_token t (now ev) (users st) = Some u
           \<and> d = pre_save sc (hook_salt ev) (Some u)
                   (u\<lparr>password := Plain (str_of p), resetPasswordToken := None,
                      resetPasswordExpire := None\<rparr>)
           \<and> users st' = map (\<lambda>x. if uid x = uid u then d else x) (users st)
           \<and> resetPasswordToken d = None \<and> resetPasswordExpire d = None)
      \<and> r2_get_reset_password ev' t st' = (Inr invalid_or_expired, st')
      \<and> snd (r2_post_reset_password sc' ev' t p' st') = st'
      \<and> (fst (r2_post_reset_password sc' ev' t p' st') = Inr policy_error
           \<or> fst (r2_post_reset_password sc' ev' t p' st') = Inr invalid_or_expired))
   \<and> (token_unique t (users st)
     \<and> r1_post_reset_password sc ev t p st
         = (Inr (reply 200 True ''Password has been reset successfully''), st') \<longrightarrow>
      (\<exists>u d. findOne_token t (now ev) (users st) = Some u
           \<and> d = pre_save sc (hook_salt ev) (Some u)
                   (u\<lparr>password := bcrypt_hash (Plain (str_of p)) (12, route_salt ev),
                      resetPasswordToken := None, resetPasswordExpire := None\<rparr>)
           \<and> users st' = map (\<lambda>x. if uid x = uid u then d else x) (users st)
           \<and> resetPasswordToken d = None \<and> resetPasswordExpire d = None)
      \<and> r1_get_reset_password ev' t st' = (Inr invalid_or_expired, st')
      \<and> snd (r1_post_reset_password sc' ev' t p' st') = st'
      \<and> (fst (r1_post_reset_password sc' ev' t p' st') = Inr policy_error
           \<or> fst (r1_post_reset_password sc' ev' t p' st') = Inr invalid_or_expired))"
proof (intro conjI impI)
  assume "reachable sc st"
  then show "token_unique t (users st)" using reachable_invariant by blast
next
  assume a: "token_unique t (users st)
     \<and> r2_post_reset_password sc ev t p st
         = (Inr (reply 200 True ''Password has been reset successfully''), st')"
  then have dead: "\<not> token_live t (now ev') (users st')"
    using r2_reset_consumes(2) by blast
  from a show "\<exists>u d. findOne_token t (now ev) (users st) = Some u
           \<and> d = pre_save sc (hook_salt ev) (Some u)
                   (u\<lparr>password := Plain (str_of p), resetPasswordToken := None,
                      resetPasswordExpire := None\<rparr>)
           \<and> users st' = map (\<lambda>x. if uid x = uid u then d else x) (users st)
           \<and> resetPasswordToken d = None \<and> resetPasswordExpire d = None"
    using r2_reset_consumes(1) by blast
  from dead show "r2_get_reset_password ev' t st' = (Inr invalid_or_expired, st')"
    by (simp add: r2_get_reset)
  from dead show "snd (r2_post_reset_password sc' ev' t p' st') = st'"
    by (rule r2_post_reset_dead(1))
  from dead show "fst (r2_post_reset_password sc' ev' t p' st') = Inr policy_error
           \<or> fst (r2_post_reset_password sc' ev' t p' st') = Inr invalid_or_expired"
    by (rule r2_post_reset_dead(2))
next
  assume a: "token_unique t (users st)
     \<and> r1_post_reset_password sc ev t p st
         = (Inr (reply 200 True ''Password has been reset successfully''), st')"
  then have dead: "\<not> token_live t (now ev') (users st')" and t: "t \<noteq> []"
    using r1_reset_consumes(2,3) by blast+
  from a show "\<exists>u d. findOne_token t (now ev) (users st) = Some u
           \<and> d = pre_save sc (hook_salt ev) (Some u)
                   (u\<lparr>password := bcrypt_hash (Plain (str_of p)) (12, route_salt ev),
                      resetPasswordToken := None, resetPasswordExpire := None\<rparr>)
           \<and> users st' = map (\<lambda>x. if uid x = uid u then d else x) (users st)
           \<and> resetPasswordToken d = None \<and> resetPasswordExpire d = None"
    using r1_reset_consumes(1) by blast
  from dead t show "r1_get_reset_password ev' t st' = (Inr invalid_or_expired, st')"
    by (simp add: r1_get_reset)
  from dead t show "snd (r1_post_reset_password sc' ev' t p' st') = st'"
    by (rule r1_post_reset_dead(1))
  from dead t show "fst (r1_post_reset_password sc' ev' t p' st') = Inr policy_error
           \<or> fst (r1_post_reset_password sc' ev' t p' st') = Inr invalid_or_expired"
    by (rule r1_post_reset_dead(2))
qed

theorem reset_token_single_use_witness:
  "reachable User_js jane_asked
   \<and> token_unique (random_token jane_env) (users jane_asked)
   \<and> r2_post_reset_password User_js later_env (random_token jane_env) (Str ''NewStr0ng!1'')
        jane_asked
       = (Inr (reply 200 True ''Password has been reset successfully''), jane_reset)
   \<and> r1_post_reset_password User_js later_env (random_token jane_env) (Str ''NewStr0ng!1'')
        jane_asked
       = (Inr (reply 200 True ''Password has been reset successfully''), jane_hashed_twice)
   \<and> r2_get_reset_password later_env (random_token jane_env) jane_reset
       = (Inr invalid_or_expired, jane_reset)
   \<and> r1_get_reset_password later_env (random_token jane_env) jane_hashed_twice
       = (Inr invalid_or_expired, jane_hashed_twice)
   \<and> r2_post_reset_password User_js later_env (random_token jane_env) (Str ''Again9!pass'')
        jane_reset
       = (Inr invalid_or_expired, jane_reset)"
proof -
  note r = jane_asked_reachable
  note th = reset_token_single_use [where t = "random_token jane_env" and st = jane_asked
      and sc = User_js and ev = later_env and p = "Str ''NewStr0ng!1''" and ev' = later_env
      and sc' = User_js and p' = "Str ''Again9!pass''"]
  from th [where st' = jane_reset] r
  have a: "token_unique (random_token jane_env) (users jane_asked)" by blast
  have b: "r2_post_reset_password User_js later_env (random_token jane_env) (Str ''NewStr0ng!1'')
        jane_asked
       = (Inr (reply 200 True ''Password has been reset successfully''), jane_reset)"
    by code_simp
  have c: "r1_post_reset_password User_js later_env (random_token jane_env) (Str ''NewStr0ng!1'')
        jane_asked
       = (Inr (reply 200 True ''Password has been reset successfully''), jane_hashed_twice)"
    by code_simp
  have d: "fst (r2_post_reset_password User_js later_env (random_token jane_env)
             (Str ''Again9!pass'') jane_reset) \<noteq> Inr policy_error"
    by code_simp
  from th [where st' = jane_reset] a b d
  have "r2_get_reset_password later_env (random_token jane_env) jane_reset
       = (Inr invalid_or_expired, jane_reset)"
    and "r2_post_reset_password User_js later_env (random_token jane_env) (Str ''Again9!pass'')
        jane_reset = (Inr invalid_or_expired, jane_reset)"
    by (simp_all add: prod_eq_iff)
  moreover from th [where st' = jane_hashed_twice] a c
  have "r1_get_reset_password later_env (random_token jane_env) jane_hashed_twice
       = (Inr invalid_or_expired, jane_hashed_twice)"
    by simp
  ultimately show ?thesis using a b c r by blast
qed

text \<open>
  C5. Registration and both versions of the reset route apply one and the same
  password policy: a password string is refused with the single policy error (status
  400, the message naming all four requirements) exactly when it is shorter than 8 or
  lacks an upper-case letter, a lower-case letter, a digit or a character outside
  A-Z, a-z, 0-9; a password that is no string is refused with the same error. At
  registration the name is checked before the password, and in the version of the
  reset route that inspects its parameter the token is non-empty, as every token the
  router passes is.
\<close>

theorem password_policy_shared:
  "(2 \<le> length (trim n) \<longrightarrow>
      (fst (r2_post_register sc ev (Str n) e (Str pw) st) = Inr policy_error) = (\<not> policy_spec pw))
   \<and> ((fst (r2_post_reset_password sc ev t (Str pw) st) = Inr policy_error) = (\<not> policy_spec pw))
   \<and> (t \<noteq> [] \<longrightarrow>
      (fst (r1_post_reset_password sc ev t (Str pw) st) = Inr policy_error) = (\<not> policy_spec pw))
   \<and> (\<not> is_string v \<longrightarrow>
      r2_post_reset_password sc ev t v st = (Inr policy_error, st)
      \<and> (t \<noteq> [] \<longrightarrow> r1_post_reset_password sc ev t v st = (Inr policy_error, st))
      \<and> (2 \<le> length (trim n) \<longrightarrow>
            r2_post_register sc ev (Str n) e v st = (Inr policy_error, st)))"
  by (simp add: register_policy r2_reset_policy r1_reset_policy nonstring_policy_error)

theorem password_policy_shared_witness:
  "2 \<le> length (trim ''Jane Doe'') \<and> \<not> policy_spec ''NoSpecial123''
   \<and> random_token jane_env \<noteq> []
   \<and> fst (r2_post_register User_js jane_env (Str ''Jane Doe'') (Str ''jane@test.com'')
            (Str ''NoSpecial123'') no_users) = Inr policy_error
   \<and> fst (r2_post_reset_password User_js later_env (random_token jane_env)
            (Str ''NoSpecial123'') jane_asked) = Inr policy_error
   \<and> fst (r1_post_reset_password User_js later_env (random_token jane_env)
            (Str ''NoSpecial123'') jane_asked) = Inr policy_error"
proof -
  have n: "2 \<le> length (trim ''Jane Doe'')" by code_simp
  have p: "\<not> policy_spec ''NoSpecial123''" by code_simp
  have t: "random_token jane_env \<noteq> []" by code_simp
  show ?thesis
    using n p t
      password_policy_shared [where n = "''Jane Doe''" and pw = "''NoSpecial123''"
        and t = "random_token jane_env" and sc = User_js]
    by simp
qed

text \<open>
  C6. The login handler does not check that the password is a string. For a password
  that is present but no string (a number, say), the lookup decides the answer: with
  no user for the normalized email the answer is 400 "Invalid email or password", and
  with a user \<^verbatim>\<open>bcrypt.compare\<close> rejects, the exception goes to the error handler and
  the answer is 500 with the library's message. The two answers differ in status and
  message, so the caller learns whether the address is registered.
\<close>

theorem login_nonstring_password_reveals_user:
  assumes "e \<noteq> []" and "truthy p" and "\<not> is_string p"
    and "findOne_email sc (normalized e) (users st1) = None"
    and "findOne_email sc (normalized e) (users st2) = Some u"
  shows "respond global_error_handler (r2_post_login sc (Str e) p st1)
           = (reply 400 False ''Invalid email or password'', st1)
       \<and> respond global_error_handler (r2_post_login sc (Str e) p st2)
           = (reply 500 False (''Illegal arguments: '' @ typeof p @ '', string''), st2)
       \<and> respond errorHandler (r2_post_login sc (Str e) p st1)
           = (reply 400 False ''Invalid email or password'', st1)
       \<and> respond errorHandler (r2_post_login sc (Str e) p st2)
           = (reply 500 False (''Illegal arguments: '' @ typeof p @ '', string''), st2)"
proof -
  define m where "m = ''Illegal arguments: '' @ typeof p @ '', string''"
  have m: "m \<noteq> []" by (simp add: m_def)
  from assms(3) have c: "comparePassword u p = Inl (plain_error m)"
    by (cases p) (simp_all add: comparePassword_def m_def)
  from m have h: "global_error_handler (plain_error m) = reply 500 False m"
    "errorHandler (plain_error m) = reply 500 False m"
    by (simp_all add: global_error_handler_def errorHandler_def plain_error_def or_500_def
        or_internal_def)
  from assms(1,2,4) have a: "r2_post_login sc (Str e) p st1
      = (Inr (reply 400 False ''Invalid email or password''), st1)"
    by (simp add: r2_post_login_def normalized_def Let_def)
  from assms(1,2,5) c have b: "r2_post_login sc (Str e) p st2 = (Inl (plain_error m), st2)"
    by (simp add: r2_post_login_def normalized_def Let_def)
  have "respond global_error_handler (r2_post_login sc (Str e) p st1)
           = (reply 400 False ''Invalid email or password'', st1)
       \<and> respond global_error_handler (r2_post_login sc (Str e) p st2)
           = (reply 500 False m, st2)
       \<and> respond errorHandler (r2_post_login sc (Str e) p st1)
           = (reply 400 False ''Invalid email or password'', st1)
       \<and> respond errorHandler (r2_post_login sc (Str e) p st2)
           = (reply 500 False m, st2)"
    unfolding respond_def a b by (simp add: h)
  then show ?thesis unfolding m_def .
qed

theorem login_nonstring_password_reveals_user_witness:
  "findOne_email User_js (normalized ''jane@test.com'') (users no_users) = None
   \<and> findOne_email User_js (normalized ''jane@test.com'') (users jane_registered) = Some jane
   \<and> respond global_error_handler
         (r2_post_login User_js (Str ''jane@test.com'') (Num 12345678) no_users)
       = (reply 400 False ''Invalid email or password'', no_users)
   \<and> respond global_error_handler
         (r2_post_login User_js (Str ''jane@test.com'') (Num 12345678) jane_registered)
       = (reply 500 False ''Illegal arguments: number, string'', jane_registered)"
proof -
  have a: "''jane@test.com'' \<noteq> []" and b: "truthy (Num 12345678)"
    and c: "\<not> is_string (Num 12345678)" by simp_all
  have d: "findOne_email User_js (normalized ''jane@test.com'') (users no_users) = None"
    by code_simp
  have f: "findOne_email User_js (normalized ''jane@test.com'') (users jane_registered) = Some jane"
    by code_simp
  from login_nonstring_password_reveals_user [OF a b c d f] d f show ?thesis by simp
qed

text \<open>
  C7. Forgot-password lower-cases the submitted email but does not trim it. Under a
  schema without the \<open>trim\<close> setter on \<open>email\<close> (models/User.js), an address with a
  leading white-space character is never found among the stored (trimmed) emails:
  the version with generic answers reports success without issuing a token, the other
  version answers 404, and the state is unchanged, although register and login resolve
  the same input to the stored user.
\<close>

theorem forgot_password_lookup_untrimmed:
  assumes "\<not> trim_email sc" and "is_ws c"
    and "list_all (\<lambda>u. email u = trim (email u)) (users st)"
  shows "r2_post_forgot_password sc ev (Str (c # e)) st
         = (Inr (reply 200 True
              ''If an account with that email exists, a reset link will be sent''), st)
       \<and> r1_post_forgot_password sc ev (Str (c # e)) st
         = (Inr (reply 404 False ''No account found with that email''), st)"
  using findOne_email_untrimmed [OF assms, of e]
  by (simp add: r2_forgot_unknown r1_forgot_unknown)

theorem forgot_password_lookup_untrimmed_witness:
  "\<not> trim_email User_js \<and> is_ws CHR '' ''
   \<and> list_all (\<lambda>u. email u = trim (email u)) (users jane_registered)
   \<and> normalized '' jane@test.com'' = ''jane@test.com''
   \<and> findOne_email User_js (normalized '' jane@test.com'') (users jane_registered) = Some jane
   \<and> r2_post_forgot_password User_js jane_env (Str ''jane@test.com'') jane_registered
       = (Inr (reply 200 True ''Password reset email sent if account exists''), jane_asked)
   \<and> r2_post_forgot_password User_js jane_env (Str '' jane@test.com'') jane_registered
       = (Inr (reply 200 True
            ''If an account with that email exists, a reset link will be sent''), jane_registered)
   \<and> r1_post_forgot_password User_js jane_env (Str '' jane@test.com'') jane_registered
       = (Inr (reply 404 False ''No account found with that email''), jane_registered)"
proof -
  have a: "\<not> trim_email User_js" and b: "is_ws CHR '' ''"
    and c: "list_all (\<lambda>u. email u = trim (email u)) (users jane_registered)"
    by code_simp+
  have d: "normalized '' jane@test.com'' = ''jane@test.com''"
    and f: "findOne_email User_js (normalized '' jane@test.com'') (users jane_registered) = Some jane"
    by code_simp+
  have g: "r2_post_forgot_password User_js jane_env (Str ''jane@test.com'') jane_registered
       = (Inr (reply 200 True ''Password reset email sent if account exists''), jane_asked)"
    by code_simp
  show ?thesis
    using a b c d f g
      forgot_password_lookup_untrimmed [OF a b c, of jane_env "''jane@test.com''"]
    by simp
qed

text \<open>
  C8. An error with code 11000 is answered by both error handlers with status 400 and
  "Email already exists", whatever raised it; the store refuses to insert a document
  whose email is already stored with such an error; and after a successful
  registration every further registration whose email has the same normalized form
  (case and white-space variants included) fails and leaves the state as it was: it is
  never answered with success, and with a name and a password that pass their checks
  the answer is 400 "User with this email already exists".
\<close>

theorem duplicate_email_rejected:
  "(err_code err = Some 11000 \<longrightarrow>
      errorHandler err = reply 400 False ''Email already exists''
      \<and> global_error_handler err = reply 400 False ''Email already exists'')
   \<and> (valid_doc sc d \<and> email d \<in> set (map email db) \<longrightarrow>
      save sc salt None d db = Inl duplicate_key_error
      \<and> err_code duplicate_key_error = Some 11000)
   \<and> (r2_post_register sc ev n (Str e) p st = (Inr r, st') \<and> status r = 201
        \<and> normalized e' = normalized e \<longrightarrow>
      snd (r2_post_register sc ev' n' (Str e') p' st') = st'
      \<and> success (fst (respond errorHandler (r2_post_register sc ev' n' (Str e') p' st'))) = False
      \<and> success (fst (respond global_error_handler (r2_post_register sc ev' n' (Str e') p' st'))) = False
      \<and> (2 \<le> length (trim m) \<and> policy_spec pw \<longrightarrow>
           fst (r2_post_register sc ev' (Str m) (Str e') (Str pw) st')
           = Inr (reply 400 False ''User with this email already exists'')))"
proof (intro conjI impI)
  assume "err_code err = Some 11000"
  then show "errorHandler err = reply 400 False ''Email already exists''"
    and "global_error_handler err = reply 400 False ''Email already exists''"
    by (simp_all add: error_handlers_11000)
next
  assume "valid_doc sc d \<and> email d \<in> set (map email db)"
  then show "save sc salt None d db = Inl duplicate_key_error"
    by (simp add: save_duplicate)
next
  show "err_code duplicate_key_error = Some 11000"
    by (simp add: duplicate_key_error_def)
next
  assume a: "r2_post_register sc ev n (Str e) p st = (Inr r, st') \<and> status r = 201
        \<and> normalized e' = normalized e"
  then have known: "findOne_email sc (toLowerCase (trim e')) (users st') \<noteq> None"
    using register_twice by blast
  from known show "snd (r2_post_register sc ev' n' (Str e') p' st') = st'"
    by (rule register_known_email(1))
  from known show
    "success (fst (respond errorHandler (r2_post_register sc ev' n' (Str e') p' st'))) = False"
    by (rule register_known_email(2))
  from known show
    "success (fst (respond global_error_handler (r2_post_register sc ev' n' (Str e') p' st'))) = False"
    by (rule register_known_email(3))
  assume "2 \<le> length (trim m) \<and> policy_spec pw"
  with known show "fst (r2_post_register sc ev' (Str m) (Str e') (Str pw) st')
           = Inr (reply 400 False ''User with this email already exists'')"
    by (simp add: register_known_email_reply)
qed

theorem duplicate_email_rejected_witness:
  "r2_post_register User_js jane_env (Str ''Jane Doe'') (Str ''Jane@Test.com'')
       (Str ''Str0ng!Pass'') no_users
     = (Inr \<lparr>status = 201, success = True, message = ''User registered successfully'',
              user = Some (1, ''jane@test.com'')\<rparr>, jane_registered)
   \<and> normalized '' JANE@test.COM '' = normalized ''Jane@Test.com''
   \<and> 2 \<le> length (trim ''Jane Doe'') \<and> policy_spec ''Other9!pass''
   \<and> err_code duplicate_key_error = Some 11000
   \<and> errorHandler duplicate_key_error = reply 400 False ''Email already exists''
   \<and> global_error_handler duplicate_key_error = reply 400 False ''Email already exists''
   \<and> r2_post_register User_js later_env (Str ''Jane Doe'') (Str '' JANE@test.COM '')
          (Str ''Other9!pass'') jane_registered
       = (Inr (reply 400 False ''User with this email already exists''), jane_registered)"
proof -
  have a: "r2_post_register User_js jane_env (Str ''Jane Doe'') (Str ''Jane@Test.com'')
       (Str ''Str0ng!Pass'') no_users
     = (Inr \<lparr>status = 201, success = True, message = ''User registered successfully'',
              user = Some (1, ''jane@test.com'')\<rparr>, jane_registered)"
    by code_simp
  have b: "normalized '' JANE@test.COM '' = normalized ''Jane@Test.com''" by code_simp
  have c: "2 \<le> length (trim ''Jane Doe'')" and d: "policy_spec ''Other9!pass''"
    by code_simp+
  have f: "err_code duplicate_key_error = Some 11000" by (simp add: duplicate_key_error_def)
  show ?thesis
    using a b c d f
      duplicate_email_rejected [where err = duplicate_key_error and sc = User_js
        and ev = jane_env and n = "Str ''Jane Doe''" and e = "''Jane@Test.com''"
        and p = "Str ''Str0ng!Pass''" and st = no_users and st' = jane_registered
        and e' = "'' JANE@test.COM ''" and ev' = later_env and m = "''Jane Doe''"
        and pw = "''Other9!pass''" and n' = "Str ''Jane Doe''" and p' = "Str ''Other9!pass''"
        and r = "\<lparr>status = 201, success = True, message = ''User registered successfully'',
              user = Some (1, ''jane@test.com'')\<rparr>"]
    by (simp add: prod_eq_iff)
qed

text \<open>
  C9. The invariant "token and expiry are both present or both absent, for every stored
  user" holds of the empty collection and is preserved by every request of either
  version of the routes, in every environment.
\<close>

theorem reset_fields_paired:
  "list_all paired (users no_users)
   \<and> (list_all paired (users st) \<longrightarrow>
        list_all paired (users (snd (r2_route sc ev req st)))
        \<and> list_all paired (users (snd (r1_route sc ev rq st))))"
proof (intro conjI impI)
  show "list_all paired (users no_users)" by (simp add: no_users_def)
next
  assume a: "list_all paired (users st)"
  then show "list_all paired (users (snd (r2_route sc ev req st)))"
    by (cases req)
      (simp_all add: register_paired login_state r2_forgot_paired r2_get_state r2_reset_paired)
  from a show "list_all paired (users (snd (r1_route sc ev rq st)))"
    by (cases rq) (simp_all add: r1_forgot_paired r1_get_state r1_reset_paired)
qed

theorem reset_fields_paired_witness:
  "list_all paired (users jane_registered)
   \<and> snd (r2_route User_js jane_env (PostForgotPassword (Str ''jane@test.com'')) jane_registered)
       = jane_asked
   \<and> snd (r1_route User_js later_env
            (ResetPassword (random_token jane_env) (Str ''NewStr0ng!1'')) jane_registered)
       = jane_registered
   \<and> list_all paired (users jane_asked)"
proof -
  have a: "list_all paired (users jane_registered)" by code_simp
  have b: "snd (r2_route User_js jane_env (PostForgotPassword (Str ''jane@test.com''))
                  jane_registered) = jane_asked"
    by code_simp
  have c: "snd (r1_route User_js later_env
            (ResetPassword (random_token jane_env) (Str ''NewStr0ng!1'')) jane_registered)
       = jane_registered"
    by code_simp
  from a b reset_fields_paired [where st = jane_registered and sc = User_js and ev = jane_env
      and req = "PostForgotPassword (Str ''jane@test.com'')"]
  have "list_all paired (users jane_asked)" by simp
  with a b c show ?thesis by blast
qed

end
